theory Spec2Isabelle
  imports Complex_Main
begin

section \<open>Data model (model.ts)\<close>

datatype CalibrationStatus = Planned | In_progress | Complete | Archived

datatype CalibrationStepType =
    Temperature
  | Volumetric_speed
  | Pressure_advance
  | Flow_rate
  | Retraction
  | Tolerance
  | Cornering
  | Input_shaping
  | Vfa

section \<open>JavaScript numbers\<close>

text \<open>
  A JavaScript \<^verbatim>\<open>number\<close> is an IEEE 754 binary64 value.  A finite one is represented by
  the rational it denotes; negative zero is identified with zero (\<^verbatim>\<open>===\<close> does not tell
  them apart and JSON writes both as \<^verbatim>\<open>0\<close>).
\<close>

datatype number = Finite rat | PosInfinity | NegInfinity | NotANumber

text \<open>The number of binary digits of a natural number.\<close>

fun bitlen :: "nat \<Rightarrow> nat" where
  "bitlen n = (if n = 0 then 0 else Suc (bitlen (n div 2)))"

declare bitlen.simps [simp del]

definition pow2 :: "int \<Rightarrow> rat" where
  "pow2 e = (if 0 \<le> e then 2 ^ nat e else 1 / 2 ^ nat (- e))"

text \<open>The binary exponent of a positive rational \<open>a\<close>: the \<open>e\<close> with \<open>2^e \<le> a < 2^(e+1)\<close>.\<close>

definition ilog2 :: "rat \<Rightarrow> int" where
  "ilog2 a =
     (if 1 \<le> a then int (bitlen (nat \<lfloor>a\<rfloor>)) - 1
      else - int (bitlen (nat (\<lceil>1 / a\<rceil> - 1))))"

text \<open>The nearest integer, the even one of the two on a tie.\<close>

definition round_half_even :: "rat \<Rightarrow> int" where
  "round_half_even x =
     (let f = \<lfloor>x\<rfloor>; r = x - of_int f
      in if r < 1 / 2 then f else if 1 / 2 < r then f + 1 else if even f then f else f + 1)"

text \<open>
  Rounding of an exact result to binary64, to nearest with ties to even: 53 significant
  bits in the normal range (exponents from \<open>-1022\<close> to \<open>1023\<close>), multiples of \<open>2^-1074\<close>
  below it, and an infinity once the rounded magnitude reaches \<open>2^1024\<close>.
\<close>

definition round_double :: "rat \<Rightarrow> number" where
  "round_double x =
     (if x = 0 then Finite 0
      else let a = \<bar>x\<bar>; e0 = ilog2 a
           in if 1024 \<le> e0 then (if x < 0 then NegInfinity else PosInfinity)
              else let e = max e0 (- 1022);
                       q = pow2 (e - 52);
                       n = round_half_even (a / q)
                   in if e = 1023 \<and> n = 2 ^ 53
                      then (if x < 0 then NegInfinity else PosInfinity)
                      else Finite (if x < 0 then - (of_int n * q) else of_int n * q))"

text \<open>The largest distance of a finite rounded result from the exact \<open>x\<close>: half a unit in
  the last place, that is at most \<open>\<bar>x\<bar> / 2^53\<close> in the normal range and \<open>2^-1075\<close> below it.\<close>

definition rounding_bound :: "rat \<Rightarrow> rat" where
  "rounding_bound x = max (\<bar>x\<bar> / 2 ^ 53) (1 / 2 ^ 1075)"

text \<open>A rational is a double when rounding leaves it as it is.\<close>

definition is_double :: "rat \<Rightarrow> bool" where
  "is_double r = (round_double r = Finite r)"

text \<open>The arithmetic operators on numbers: the exact result of finite operands is
  rounded; the special values follow IEEE 754.\<close>

fun js_neg :: "number \<Rightarrow> number" where
  "js_neg (Finite a) = Finite (- a)"
| "js_neg PosInfinity = NegInfinity"
| "js_neg NegInfinity = PosInfinity"
| "js_neg NotANumber = NotANumber"

fun js_add :: "number \<Rightarrow> number \<Rightarrow> number" where
  "js_add NotANumber y = NotANumber"
| "js_add x NotANumber = NotANumber"
| "js_add (Finite a) (Finite b) = round_double (a + b)"
| "js_add PosInfinity NegInfinity = NotANumber"
| "js_add NegInfinity PosInfinity = NotANumber"
| "js_add PosInfinity y = PosInfinity"
| "js_add NegInfinity y = NegInfinity"
| "js_add (Finite a) y = y"

definition js_sub :: "number \<Rightarrow> number \<Rightarrow> number" where
  "js_sub x y = js_add x (js_neg y)"

text \<open>The infinity of the sign of a product or quotient: negative when exactly one operand
  is negative.\<close>

definition signed_infinity :: "bool \<Rightarrow> number" where
  "signed_infinity negative = (if negative then NegInfinity else PosInfinity)"

fun is_negative :: "number \<Rightarrow> bool" where
  "is_negative (Finite a) = (a < 0)"
| "is_negative NegInfinity = True"
| "is_negative _ = False"

fun js_mul :: "number \<Rightarrow> number \<Rightarrow> number" where
  "js_mul NotANumber y = NotANumber"
| "js_mul x NotANumber = NotANumber"
| "js_mul (Finite a) (Finite b) = round_double (a * b)"
| "js_mul (Finite a) y =
     (if a = 0 then NotANumber else signed_infinity (is_negative (Finite a) \<noteq> is_negative y))"
| "js_mul x (Finite b) =
     (if b = 0 then NotANumber else signed_infinity (is_negative x \<noteq> is_negative (Finite b)))"
| "js_mul x y = signed_infinity (is_negative x \<noteq> is_negative y)"

fun js_div :: "number \<Rightarrow> number \<Rightarrow> number" where
  "js_div NotANumber y = NotANumber"
| "js_div x NotANumber = NotANumber"
| "js_div (Finite a) (Finite b) =
     (if b = 0 then (if a = 0 then NotANumber else signed_infinity (a < 0))
      else round_double (a / b))"
| "js_div (Finite a) y = Finite 0"
| "js_div x (Finite b) = signed_infinity (is_negative x \<noteq> is_negative (Finite b))"
| "js_div x y = NotANumber"

section \<open>Number formatting used by the formulas\<close>

text \<open>The multiple of \<open>10^-d\<close> nearest to \<open>x\<close>, the one of larger magnitude on a tie.\<close>

definition round_decimal :: "rat \<Rightarrow> nat \<Rightarrow> rat" where
  "round_decimal x d =
     (if x < 0 then - (of_int \<lfloor>(- x) * 10 ^ d + 1 / 2\<rfloor> / 10 ^ d)
      else of_int \<lfloor>x * 10 ^ d + 1 / 2\<rfloor> / 10 ^ d)"

text \<open>
  The text that \<^verbatim>\<open>toFixed\<close> returns: a decimal numeral, given by the rational it denotes,
  or the text of \<^verbatim>\<open>String(x)\<close> for a number \<open>x\<close>.
\<close>

datatype numeral_text = Dec rat | Repr number

text \<open>
  \<^verbatim>\<open>x.toFixed(d)\<close>: for a finite \<open>x\<close> of magnitude below \<open>10^21\<close>, ECMAScript takes the
  integer \<open>n\<close> with \<open>n / 10^d\<close> closest to the magnitude of \<open>x\<close>, the larger \<open>n\<close> on a tie,
  prints it with \<open>d\<close> decimals and keeps the sign; for every other number it returns
  \<^verbatim>\<open>String(x)\<close>.
\<close>

fun toFixed :: "number \<Rightarrow> nat \<Rightarrow> numeral_text" where
  "toFixed (Finite x) d = (if \<bar>x\<bar> < 10 ^ 21 then Dec (round_decimal x d) else Repr (Finite x))"
| "toFixed x d = Repr x"

text \<open>\<^verbatim>\<open>parseFloat\<close> reads a decimal numeral as the nearest double; the text of
  \<^verbatim>\<open>String(x)\<close> reads back as \<open>x\<close>.\<close>

fun parseFloat :: "numeral_text \<Rightarrow> number" where
  "parseFloat (Dec r) = round_double r"
| "parseFloat (Repr x) = x"

section \<open>Values of the forms\<close>

text \<open>
  The value a number control of the form holds is a finite double or NaN: \<open>jsnumber\<close>,
  where \<open>Num r\<close> is the double that denotes the rational \<open>r\<close>.
  A value of TypeScript type \<^verbatim>\<open>number | null\<close> is a \<open>jsnumber option\<close> (\<open>None\<close> is
  \<^verbatim>\<open>null\<close>).  A key that an object does not have reads as \<^verbatim>\<open>undefined\<close>: that is the
  outer \<open>None\<close> of a map lookup.
\<close>

datatype jsnumber = Num rat | NaN

text \<open>\<^verbatim>\<open>Record<string, number | null>\<close>, the declared argument type of every \<^verbatim>\<open>autoCompute\<close>
  and the type the components cast the watched \<^verbatim>\<open>inputs\<close> to.  Values of select fields,
  which no formula reads, have no place in it.\<close>

type_synonym num_record = "string \<rightharpoonup> jsnumber option"

text \<open>The values that occur in \<^verbatim>\<open>Record<string, unknown>\<close> objects of results.\<close>

datatype jsval = JNull | JBool bool | JNum rat | JNaN | JPosInfinity | JNegInfinity | JStr string

type_synonym jsobj = "string \<rightharpoonup> jsval"

fun as_jsval :: "number \<Rightarrow> jsval" where
  "as_jsval (Finite r) = JNum r"
| "as_jsval PosInfinity = JPosInfinity"
| "as_jsval NegInfinity = JNegInfinity"
| "as_jsval NotANumber = JNaN"

section \<open>Step registry (stepConfig.ts)\<close>

text \<open>\<^verbatim>\<open>isNaN(v)\<close> for \<open>v\<close> read from a \<open>num_record\<close>: \<^verbatim>\<open>undefined\<close> converts to NaN,
  \<^verbatim>\<open>null\<close> converts to 0.\<close>

fun isNaN :: "jsnumber option option \<Rightarrow> bool" where
  "isNaN None = True"
| "isNaN (Some None) = False"
| "isNaN (Some (Some NaN)) = True"
| "isNaN (Some (Some (Num r))) = False"

text \<open>\<^verbatim>\<open>v !== null\<close>.\<close>

definition not_null :: "jsnumber option option \<Rightarrow> bool" where
  "not_null v = (v \<noteq> Some None)"

text \<open>The operand of \<^verbatim>\<open>+\<close>, \<^verbatim>\<open>-\<close>, \<^verbatim>\<open>*\<close> that a looked-up value converts to:
  \<^verbatim>\<open>undefined\<close> to NaN and \<^verbatim>\<open>null\<close> to 0.\<close>

fun num :: "jsnumber option option \<Rightarrow> number" where
  "num None = NotANumber"
| "num (Some None) = Finite 0"
| "num (Some (Some NaN)) = NotANumber"
| "num (Some (Some (Num r))) = Finite r"

definition autoCompute_volumetric_speed :: "num_record \<Rightarrow> (string \<rightharpoonup> number)" where
  "autoCompute_volumetric_speed inputs =
     (let start = inputs ''start_speed'';
          step = inputs ''step_size'';
          h = inputs ''measured_height''
      in if not_null start \<and> not_null step \<and> not_null h \<and>
            \<not> isNaN start \<and> \<not> isNaN step \<and> \<not> isNaN h
         then [''max_volumetric_speed'' \<mapsto>
                 parseFloat (toFixed (js_add (num start) (js_mul (num h) (num step))) 2)]
         else Map.empty)"

definition autoCompute_pressure_advance :: "num_record \<Rightarrow> (string \<rightharpoonup> number)" where
  "autoCompute_pressure_advance inputs =
     (let a = inputs ''pa_step_a'';
          b = inputs ''measured_height_b''
      in if not_null a \<and> not_null b \<and> \<not> isNaN a \<and> \<not> isNaN b
         then [''pressure_advance'' \<mapsto> parseFloat (toFixed (js_mul (num a) (num b)) 4)]
         else Map.empty)"

definition autoCompute_retraction :: "num_record \<Rightarrow> (string \<rightharpoonup> number)" where
  "autoCompute_retraction inputs =
     (let start = inputs ''start_retract'';
          h = inputs ''measured_height'';
          factor = inputs ''factor''
      in if not_null start \<and> not_null h \<and> not_null factor \<and>
            \<not> isNaN start \<and> \<not> isNaN h \<and> \<not> isNaN factor
         then [''retraction_length'' \<mapsto>
                 parseFloat (toFixed (js_add (num start) (js_mul (num h) (num factor))) 5)]
         else Map.empty)"

definition autoCompute_tolerance :: "num_record \<Rightarrow> (string \<rightharpoonup> number)" where
  "autoCompute_tolerance inputs =
     (let t = inputs ''test_size'';
          m = inputs ''measured_size''
      in if not_null t \<and> not_null m \<and> \<not> isNaN t \<and> \<not> isNaN m
         then [''tolerance_offset'' \<mapsto> parseFloat (toFixed (js_sub (num t) (num m)) 3)]
         else Map.empty)"

text \<open>\<^verbatim>\<open>StepConfig\<close>: the field lists only drive form layout and are left out.\<close>

record StepConfig =
  recommendedKeys :: "string list"
  autoCompute :: "(num_record \<Rightarrow> (string \<rightharpoonup> number)) option"

fun STEP_CONFIGS :: "CalibrationStepType \<Rightarrow> StepConfig" where
  "STEP_CONFIGS Temperature =
     \<lparr>recommendedKeys = [''temperature''], autoCompute = None\<rparr>"
| "STEP_CONFIGS Volumetric_speed =
     \<lparr>recommendedKeys = [''max_volumetric_speed''],
      autoCompute = Some autoCompute_volumetric_speed\<rparr>"
| "STEP_CONFIGS Pressure_advance =
     \<lparr>recommendedKeys = [''pressure_advance''],
      autoCompute = Some autoCompute_pressure_advance\<rparr>"
| "STEP_CONFIGS Flow_rate =
     \<lparr>recommendedKeys = [''flow_ratio''], autoCompute = None\<rparr>"
| "STEP_CONFIGS Retraction =
     \<lparr>recommendedKeys = [''retraction_length''],
      autoCompute = Some autoCompute_retraction\<rparr>"
| "STEP_CONFIGS Tolerance =
     \<lparr>recommendedKeys = [''tolerance_offset''],
      autoCompute = Some autoCompute_tolerance\<rparr>"
| "STEP_CONFIGS Cornering =
     \<lparr>recommendedKeys = [''cornering_value''], autoCompute = None\<rparr>"
| "STEP_CONFIGS Input_shaping =
     \<lparr>recommendedKeys = [''shaper_type_x'', ''frequency_x'', ''shaper_type_y'', ''frequency_y''],
      autoCompute = None\<rparr>"
| "STEP_CONFIGS Vfa =
     \<lparr>recommendedKeys = [''min_avoidance_speed'', ''max_avoidance_speed''],
      autoCompute = None\<rparr>"

section \<open>Per-step content: reactive effects (CalibrationWizard StepContent, StepResultDrawer)\<close>

datatype PaMethod = Tower | Pattern

text \<open>\<^verbatim>\<open>form.getFieldValue("result") ?? {}\<close>.\<close>

definition or_empty :: "jsobj option \<Rightarrow> jsobj" where
  "or_empty r = (case r of None \<Rightarrow> Map.empty | Some c \<Rightarrow> c)"

text \<open>The computed numbers as values of the result object.\<close>

definition as_jsobj :: "(string \<rightharpoonup> number) \<Rightarrow> jsobj" where
  "as_jsobj computed = map_option as_jsval \<circ> computed"

text \<open>
  The effect on \<^verbatim>\<open>[inputValues, paMethod]\<close> of \<^verbatim>\<open>StepContent\<close>.  It takes the watched
  \<^verbatim>\<open>inputs\<close> (\<open>None\<close> while the form has none) and the form's \<^verbatim>\<open>result\<close> field and
  returns the \<^verbatim>\<open>result\<close> field afterwards; returning the argument means that
  \<^verbatim>\<open>setFieldValue\<close> was not called.
\<close>

definition autoCompute_effect ::
  "CalibrationStepType \<Rightarrow> PaMethod \<Rightarrow> num_record option \<Rightarrow> jsobj option \<Rightarrow> jsobj option" where
  "autoCompute_effect stepType paMethod inputValues result =
     (case autoCompute (STEP_CONFIGS stepType) of
        None \<Rightarrow> result
      | Some f \<Rightarrow>
          (case inputValues of
             None \<Rightarrow> result
           | Some iv \<Rightarrow>
               if stepType = Pressure_advance \<and> paMethod = Pattern then result
               else let computed = f iv
                    in if computed \<noteq> Map.empty
                       then Some (or_empty result ++ as_jsobj computed)
                       else result))"

text \<open>The same effect in \<^verbatim>\<open>StepResultDrawer\<close>, where no step type may be chosen yet
  (\<^verbatim>\<open>config?.autoCompute\<close>).\<close>

definition drawer_autoCompute_effect ::
  "CalibrationStepType option \<Rightarrow> PaMethod \<Rightarrow> num_record option \<Rightarrow> jsobj option \<Rightarrow> jsobj option" where
  "drawer_autoCompute_effect stepType paMethod inputValues result =
     (case stepType of
        None \<Rightarrow> result
      | Some st \<Rightarrow> autoCompute_effect st paMethod inputValues result)"

text \<open>\<^verbatim>\<open>handlePaMethodChange\<close>: the new method and the emptied \<^verbatim>\<open>result\<close> field.\<close>

definition handlePaMethodChange :: "PaMethod \<Rightarrow> PaMethod \<times> jsobj option" where
  "handlePaMethodChange val = (val, Some Map.empty)"

subsection \<open>VFA artifact speeds\<close>

text \<open>\<^verbatim>\<open>Math.min(...xs)\<close> and \<^verbatim>\<open>Math.max(...xs)\<close> on a list with first element \<open>x\<close>.\<close>

fun Math_min :: "rat \<Rightarrow> rat list \<Rightarrow> rat" where
  "Math_min x [] = x"
| "Math_min x (y # ys) = Math_min (min x y) ys"

fun Math_max :: "rat \<Rightarrow> rat list \<Rightarrow> rat" where
  "Math_max x [] = x"
| "Math_max x (y # ys) = Math_max (max x y) ys"

text \<open>The effect on \<^verbatim>\<open>[artifactSpeeds]\<close>.\<close>

definition vfa_effect :: "CalibrationStepType \<Rightarrow> rat list \<Rightarrow> jsobj option \<Rightarrow> jsobj option" where
  "vfa_effect stepType artifactSpeeds result =
     (if stepType \<noteq> Vfa then result
      else let current = or_empty result
           in case artifactSpeeds of
                [] \<Rightarrow> Some (current(''min_avoidance_speed'' \<mapsto> JNull,
                                   ''max_avoidance_speed'' \<mapsto> JNull))
              | x # xs \<Rightarrow> Some (current(''min_avoidance_speed'' \<mapsto> JNum (Math_min x xs),
                                       ''max_avoidance_speed'' \<mapsto> JNum (Math_max x xs))))"

definition drawer_vfa_effect ::
  "CalibrationStepType option \<Rightarrow> rat list \<Rightarrow> jsobj option \<Rightarrow> jsobj option" where
  "drawer_vfa_effect stepType artifactSpeeds result =
     (case stepType of
        None \<Rightarrow> result
      | Some st \<Rightarrow> vfa_effect st artifactSpeeds result)"

text \<open>The state the VFA controls work on: the list, the pending entry of the number
  input, and the form's \<^verbatim>\<open>result\<close> field.\<close>

record VfaState =
  artifactSpeeds :: "rat list"
  newArtifactSpeed :: "jsnumber option"
  vfa_result :: "jsobj option"

text \<open>A state update of \<^verbatim>\<open>artifactSpeeds\<close> re-renders and runs the effect that depends
  on it.\<close>

definition setArtifactSpeeds :: "CalibrationStepType \<Rightarrow> rat list \<Rightarrow> VfaState \<Rightarrow> VfaState" where
  "setArtifactSpeeds stepType xs s =
     s\<lparr>artifactSpeeds := xs, vfa_result := vfa_effect stepType xs (vfa_result s)\<rparr>"

definition addArtifactSpeed :: "CalibrationStepType \<Rightarrow> VfaState \<Rightarrow> VfaState" where
  "addArtifactSpeed stepType s =
     (case newArtifactSpeed s of
        None \<Rightarrow> s
      | Some NaN \<Rightarrow> s
      | Some (Num n) \<Rightarrow>
          (setArtifactSpeeds stepType (sort (artifactSpeeds s @ [n])) s)
            \<lparr>newArtifactSpeed := None\<rparr>)"

text \<open>\<^verbatim>\<open>prev.filter((_, i) => i !== idx)\<close>.\<close>

definition filter_index :: "nat \<Rightarrow> 'a list \<Rightarrow> 'a list" where
  "filter_index idx prev = map fst (filter (\<lambda>(x, i). i \<noteq> idx) (zip prev [0 ..< length prev]))"

definition removeArtifactSpeed :: "CalibrationStepType \<Rightarrow> nat \<Rightarrow> VfaState \<Rightarrow> VfaState" where
  "removeArtifactSpeed stepType idx s =
     setArtifactSpeeds stepType (filter_index idx (artifactSpeeds s)) s"

subsection \<open>Flow-rate calculator\<close>

datatype FlowCalcMethod = Yolo | Legacy

datatype FlowCalcPhase = Idle | Pass1 | Pass2

record FlowCalc =
  flowCalcMethod :: FlowCalcMethod
  flowCalcPhase :: FlowCalcPhase
  yoloFlowRatioOld :: "number option"
  yoloModifier :: "number option"
  pass1FlowRatio :: "number option"
  pass1Modifier :: "number option"
  pass2FlowRatio :: "number option"
  pass2Modifier :: "number option"

text \<open>\<^verbatim>\<open>isNaN\<close> and the operand value for a state variable of type \<^verbatim>\<open>number | null\<close>
  (\<^verbatim>\<open>null\<close> converts to 0).\<close>

definition isNaN_state :: "number option \<Rightarrow> bool" where
  "isNaN_state v = (v = Some NotANumber)"

definition num_state :: "number option \<Rightarrow> number" where
  "num_state v = (case v of None \<Rightarrow> Finite 0 | Some x \<Rightarrow> x)"

definition yoloResult :: "FlowCalc \<Rightarrow> number option" where
  "yoloResult c =
     (if yoloFlowRatioOld c \<noteq> None \<and> yoloModifier c \<noteq> None \<and>
         \<not> isNaN_state (yoloFlowRatioOld c) \<and> \<not> isNaN_state (yoloModifier c)
      then Some (parseFloat (toFixed
             (js_add (num_state (yoloFlowRatioOld c)) (num_state (yoloModifier c))) 5))
      else None)"

definition pass1Result :: "FlowCalc \<Rightarrow> number option" where
  "pass1Result c =
     (if pass1FlowRatio c \<noteq> None \<and> pass1Modifier c \<noteq> None \<and>
         \<not> isNaN_state (pass1FlowRatio c) \<and> \<not> isNaN_state (pass1Modifier c)
      then Some (parseFloat (toFixed
             (js_div (js_mul (num_state (pass1FlowRatio c))
                             (js_add (Finite 100) (num_state (pass1Modifier c))))
                     (Finite 100)) 5))
      else None)"

definition pass2Result :: "FlowCalc \<Rightarrow> number option" where
  "pass2Result c =
     (if pass2FlowRatio c \<noteq> None \<and> pass2Modifier c \<noteq> None \<and>
         \<not> isNaN_state (pass2FlowRatio c) \<and> \<not> isNaN_state (pass2Modifier c)
      then Some (parseFloat (toFixed
             (js_div (js_mul (num_state (pass2FlowRatio c))
                             (js_add (Finite 100) (num_state (pass2Modifier c))))
                     (Finite 100)) 5))
      else None)"

definition resetFlowCalcState :: "FlowCalc \<Rightarrow> FlowCalc" where
  "resetFlowCalcState c =
     c\<lparr>flowCalcPhase := Idle,
       yoloFlowRatioOld := Some (Finite 1), yoloModifier := None,
       pass1FlowRatio := Some (Finite 1), pass1Modifier := None,
       pass2FlowRatio := None, pass2Modifier := None\<rparr>"

text \<open>The \<^verbatim>\<open>Next: Pass 2\<close> button.\<close>

definition nextPass2 :: "FlowCalc \<Rightarrow> FlowCalc" where
  "nextPass2 c = c\<lparr>pass2FlowRatio := pass1Result c, flowCalcPhase := Pass2\<rparr>"

definition applyFlowCalc :: "FlowCalc \<Rightarrow> jsobj option \<Rightarrow> FlowCalc \<times> jsobj option" where
  "applyFlowCalc c result =
     (let finalRatio =
            (if flowCalcMethod c = Yolo then yoloResult c
             else (case pass2Result c of Some r \<Rightarrow> Some r | None \<Rightarrow> pass1Result c))
      in (resetFlowCalcState c,
          (case finalRatio of
             None \<Rightarrow> result
           | Some r \<Rightarrow> Some ((or_empty result)(''flow_ratio'' \<mapsto> as_jsval r)))))"

section \<open>Sessions and step results (model.ts)\<close>

text \<open>Timestamps and the printer attributes of a session are display data that no
  modelled function reads; they are left out of the records.\<close>

record ICalibrationStepResult =
  step_id :: nat
  session_id :: nat
  step_type :: CalibrationStepType
  inputs :: "jsobj option"
  outputs :: "jsobj option"
  selected_values :: "jsobj option"
  step_notes :: "string option"
  confidence :: "string option"

record ICalibrationSession =
  sid :: nat
  filament_id :: nat
  status :: CalibrationStatus
  steps :: "ICalibrationStepResult list"

text \<open>The \<^verbatim>\<open>values\<close> object posted with a create or update request of a step.\<close>

record StepValues =
  v_step_type :: CalibrationStepType
  v_inputs :: "jsobj option"
  v_outputs :: "jsobj option"
  v_selected_values :: "jsobj option"
  v_notes :: "string option"
  v_confidence :: "string option"

text \<open>The sentinel \<^verbatim>\<open>{ _skipped: true }\<close>.\<close>

definition skipped_sentinel :: jsobj where
  "skipped_sentinel = [''_skipped'' \<mapsto> JBool True]"

text \<open>\<^verbatim>\<open>Object.keys(o).length > 0\<close> for an object that may be \<^verbatim>\<open>null\<close> or absent.\<close>

definition nonempty_obj :: "jsobj option \<Rightarrow> bool" where
  "nonempty_obj ob = (case ob of None \<Rightarrow> False | Some m \<Rightarrow> m \<noteq> Map.empty)"

section \<open>The resource API as the wizard uses it\<close>

text \<open>
  Modelled from the spec: the REST backend that stores sessions and steps is an external
  collaborator (section 6).  \<^verbatim>\<open>create(step, sessionId, values)\<close> stores a new Step Result
  with the posted fields under a fresh id, \<^verbatim>\<open>update(step, id, values)\<close> replaces the
  fields of the step with that id, and \<^verbatim>\<open>update(session, id, {status})\<close> sets the status.
\<close>

definition fresh_step_id :: "ICalibrationSession \<Rightarrow> nat" where
  "fresh_step_id s = Suc (fold max (map step_id (steps s)) 0)"

definition stored_step :: "nat \<Rightarrow> nat \<Rightarrow> StepValues \<Rightarrow> ICalibrationStepResult" where
  "stored_step i sess v =
     \<lparr>step_id = i, session_id = sess, step_type = v_step_type v,
      inputs = v_inputs v, outputs = v_outputs v, selected_values = v_selected_values v,
      step_notes = v_notes v, confidence = v_confidence v\<rparr>"

definition backend_create_step :: "StepValues \<Rightarrow> ICalibrationSession \<Rightarrow> ICalibrationSession" where
  "backend_create_step v s = s\<lparr>steps := steps s @ [stored_step (fresh_step_id s) (sid s) v]\<rparr>"

definition backend_update_step ::
  "nat \<Rightarrow> StepValues \<Rightarrow> ICalibrationSession \<Rightarrow> ICalibrationSession" where
  "backend_update_step i v s =
     s\<lparr>steps := map (\<lambda>st. if step_id st = i then stored_step i (session_id st) v else st) (steps s)\<rparr>"

definition backend_update_status ::
  "CalibrationStatus \<Rightarrow> ICalibrationSession \<Rightarrow> ICalibrationSession" where
  "backend_update_status st s = s\<lparr>status := st\<rparr>"

section \<open>Wizard orchestrator (CalibrationWizard)\<close>

definition WIZARD_STEP_ORDER :: "CalibrationStepType list" where
  "WIZARD_STEP_ORDER =
     [Temperature, Volumetric_speed, Pressure_advance, Flow_rate, Retraction,
      Tolerance, Cornering, Input_shaping, Vfa]"

text \<open>\<^verbatim>\<open>WIZARD_STEP_ORDER[idx]\<close>; \<open>None\<close> is the \<^verbatim>\<open>undefined\<close> of an index out of range.\<close>

definition step_at :: "nat \<Rightarrow> CalibrationStepType option" where
  "step_at idx = (if idx < length WIZARD_STEP_ORDER then Some (WIZARD_STEP_ORDER ! idx) else None)"

text \<open>\<^verbatim>\<open>Array.prototype.findIndex\<close>: the first index whose element passes, or \<open>-1\<close>.\<close>

fun findIndex_from :: "('a \<Rightarrow> bool) \<Rightarrow> 'a list \<Rightarrow> int \<Rightarrow> int" where
  "findIndex_from P [] i = - 1"
| "findIndex_from P (x # xs) i = (if P x then i else findIndex_from P xs (i + 1))"

definition findIndex :: "('a \<Rightarrow> bool) \<Rightarrow> 'a list \<Rightarrow> int" where
  "findIndex P xs = findIndex_from P xs 0"

text \<open>The values of the wizard form: \<^verbatim>\<open>inputs\<close>, \<^verbatim>\<open>result\<close>, \<^verbatim>\<open>notes\<close>, \<^verbatim>\<open>confidence\<close>.
  \<^verbatim>\<open>form.getFieldsValue(true)\<close> returns the whole store, also what no field control
  is bound to.\<close>

record FormValues =
  f_inputs :: "jsobj option"
  f_result :: "jsobj option"
  f_notes :: "string option"
  f_confidence :: "string option"

definition resetFields :: FormValues where
  "resetFields = \<lparr>f_inputs = None, f_result = None, f_notes = None, f_confidence = None\<rparr>"

text \<open>\<^verbatim>\<open>form.setFieldsValue(v)\<close> merges \<open>v\<close> into the store.\<close>

definition merge_obj :: "jsobj option \<Rightarrow> jsobj option \<Rightarrow> jsobj option" where
  "merge_obj old new =
     (case new of
        None \<Rightarrow> old
      | Some n \<Rightarrow> (case old of None \<Rightarrow> Some n | Some a \<Rightarrow> Some (a ++ n)))"

definition or_old :: "'a option \<Rightarrow> 'a option \<Rightarrow> 'a option" where
  "or_old old new = (case new of None \<Rightarrow> old | Some n \<Rightarrow> Some n)"

definition setFieldsValue :: "FormValues \<Rightarrow> FormValues \<Rightarrow> FormValues" where
  "setFieldsValue v store =
     \<lparr>f_inputs = merge_obj (f_inputs store) (f_inputs v),
      f_result = merge_obj (f_result store) (f_result v),
      f_notes = or_old (f_notes store) (f_notes v),
      f_confidence = or_old (f_confidence store) (f_confidence v)\<rparr>"

record WizardState =
  currentIdx :: nat
  doneTypes :: "CalibrationStepType set"
  savedValues :: "CalibrationStepType \<rightharpoonup> FormValues"
  form :: FormValues

text \<open>The loop of the open effect that seeds \<^verbatim>\<open>savedValues\<close> from the persisted steps.\<close>

fun seed_savedValues ::
  "ICalibrationStepResult list \<Rightarrow> (CalibrationStepType \<rightharpoonup> FormValues)
     \<Rightarrow> (CalibrationStepType \<rightharpoonup> FormValues)" where
  "seed_savedValues [] saved = saved"
| "seed_savedValues (step # rest) saved =
     seed_savedValues rest
       (saved(step_type step \<mapsto>
          \<lparr>f_inputs = Some (or_empty (inputs step)),
           f_result = Some (case selected_values step of
                              Some sv \<Rightarrow> sv
                            | None \<Rightarrow> or_empty (outputs step)),
           f_notes = step_notes step,
           f_confidence = confidence step\<rparr>))"

text \<open>Restoring the form for a step type, as the open effect and \<^verbatim>\<open>navigateTo\<close> do:
  \<^verbatim>\<open>form.resetFields()\<close>, then \<^verbatim>\<open>form.setFieldsValue\<close> of the cached values if any.\<close>

definition restore_form ::
  "(CalibrationStepType \<rightharpoonup> FormValues) \<Rightarrow> CalibrationStepType option \<Rightarrow> FormValues" where
  "restore_form saved ty =
     (case ty of
        None \<Rightarrow> resetFields
      | Some t \<Rightarrow> (case saved t of None \<Rightarrow> resetFields | Some v \<Rightarrow> setFieldsValue v resetFields))"

definition open_effect :: "bool \<Rightarrow> ICalibrationSession \<Rightarrow> WizardState \<Rightarrow> WizardState" where
  "open_effect opn session w =
     (if \<not> opn then w
      else let done = set (map step_type (steps session));
               saved = seed_savedValues (steps session) Map.empty;
               firstPending = findIndex (\<lambda>st. st \<notin> done) WIZARD_STEP_ORDER;
               startIdx = (if firstPending \<ge> 0 then nat firstPending else 0)
           in \<lparr>currentIdx = startIdx, doneTypes = done, savedValues = saved,
               form = restore_form saved (step_at startIdx)\<rparr>)"

text \<open>The state of a freshly mounted wizard, before the open effect.\<close>

definition initial_wizard :: "ICalibrationSession \<Rightarrow> WizardState" where
  "initial_wizard session =
     \<lparr>currentIdx = 0, doneTypes = set (map step_type (steps session)),
      savedValues = Map.empty, form = resetFields\<rparr>"

definition navigateTo :: "nat \<Rightarrow> WizardState \<Rightarrow> WizardState" where
  "navigateTo newIdx w =
     (let saved = (case step_at (currentIdx w) of
                     None \<Rightarrow> savedValues w
                   | Some stepType \<Rightarrow> (savedValues w)(stepType \<mapsto> form w))
      in w\<lparr>savedValues := saved, form := restore_form saved (step_at newIdx),
           currentIdx := newIdx\<rparr>)"

definition isFirst :: "WizardState \<Rightarrow> bool" where
  "isFirst w = (currentIdx w = 0)"

definition isLast :: "WizardState \<Rightarrow> bool" where
  "isLast w = (currentIdx w = length WIZARD_STEP_ORDER - 1)"

text \<open>The wizard together with the session as the backend holds it, and whether the
  modal is open.\<close>

record World =
  wizard :: WizardState
  session :: ICalibrationSession
  is_open :: bool

text \<open>The \<^verbatim>\<open>values\<close> that \<^verbatim>\<open>saveCurrentStep\<close> posts.\<close>

definition save_values :: "CalibrationStepType \<Rightarrow> FormValues \<Rightarrow> StepValues" where
  "save_values currentStepType vals =
     (let result = f_result vals
      in \<lparr>v_step_type = currentStepType, v_inputs = f_inputs vals,
          v_outputs = result, v_selected_values = result,
          v_notes = f_notes vals, v_confidence = f_confidence vals\<rparr>)"

text \<open>The \<^verbatim>\<open>values\<close> that \<^verbatim>\<open>handleSaveAsSkipped\<close> posts.\<close>

definition skipped_values :: "CalibrationStepType \<Rightarrow> StepValues" where
  "skipped_values currentStepType =
     \<lparr>v_step_type = currentStepType, v_inputs = None,
      v_outputs = Some skipped_sentinel, v_selected_values = None,
      v_notes = None, v_confidence = None\<rparr>"

text \<open>A request either succeeds, and then its \<^verbatim>\<open>onSuccess\<close> callback runs, or fails and
  nothing follows; the outcome is the Boolean argument.\<close>

definition markComplete :: "bool \<Rightarrow> World \<Rightarrow> World" where
  "markComplete updated wd =
     (if updated
      then wd\<lparr>session := backend_update_status Complete (session wd), is_open := False\<rparr>
      else wd)"

definition createStep :: "bool \<Rightarrow> StepValues \<Rightarrow> (World \<Rightarrow> World) \<Rightarrow> World \<Rightarrow> World" where
  "createStep created vals onSuccess wd =
     (if created then onSuccess (wd\<lparr>session := backend_create_step vals (session wd)\<rparr>) else wd)"

definition add_done :: "CalibrationStepType \<Rightarrow> World \<Rightarrow> World" where
  "add_done ty wd = wd\<lparr>wizard := (wizard wd)\<lparr>doneTypes := insert ty (doneTypes (wizard wd))\<rparr>\<rparr>"

definition navigate :: "nat \<Rightarrow> World \<Rightarrow> World" where
  "navigate newIdx wd = wd\<lparr>wizard := navigateTo newIdx (wizard wd)\<rparr>"

definition saveCurrentStep :: "bool \<Rightarrow> (World \<Rightarrow> World) \<Rightarrow> World \<Rightarrow> World" where
  "saveCurrentStep created onDone wd =
     (case step_at (currentIdx (wizard wd)) of
        None \<Rightarrow> wd
      | Some currentStepType \<Rightarrow>
          createStep created (save_values currentStepType (form (wizard wd)))
            (\<lambda>wd'. onDone (add_done currentStepType wd')) wd)"

definition handleSkip :: "bool \<Rightarrow> bool \<Rightarrow> World \<Rightarrow> World" where
  "handleSkip confirmed updated wd =
     (if isLast (wizard wd)
      then (if confirmed then markComplete updated wd else wd)
      else navigate (currentIdx (wizard wd) + 1) wd)"

definition handleSaveAndContinue :: "bool \<Rightarrow> bool \<Rightarrow> World \<Rightarrow> World" where
  "handleSaveAndContinue created updated wd =
     (if isLast (wizard wd)
      then saveCurrentStep created (markComplete updated) wd
      else saveCurrentStep created (navigate (currentIdx (wizard wd) + 1)) wd)"

definition handleSaveAsSkipped :: "bool \<Rightarrow> bool \<Rightarrow> World \<Rightarrow> World" where
  "handleSaveAsSkipped created updated wd =
     (case step_at (currentIdx (wizard wd)) of
        None \<Rightarrow> wd
      | Some currentStepType \<Rightarrow>
          createStep created (skipped_values currentStepType)
            (\<lambda>wd'. let wd'' = add_done currentStepType wd'
                   in if isLast (wizard wd) then markComplete updated wd''
                      else navigate (currentIdx (wizard wd) + 1) wd'') wd)"

text \<open>
  What the user can do in the open wizard.  The sidebar offers the nine steps, Back is
  disabled on the first step, and the button bound to \<^verbatim>\<open>handleSaveAsSkipped\<close> is only
  rendered on the input-shaping step.  \<open>EditForm\<close> stands for any editing of the form.
\<close>

datatype action =
    SidebarClick nat
  | Back
  | Skip bool bool
  | SaveAndContinue bool bool
  | SkipNotApplicable bool bool
  | EditForm FormValues
  | Close

fun wizard_step :: "action \<Rightarrow> World \<Rightarrow> World" where
  "wizard_step (SidebarClick idx) wd =
     (if idx < length WIZARD_STEP_ORDER then navigate idx wd else wd)"
| "wizard_step Back wd =
     (if isFirst (wizard wd) then wd else navigate (currentIdx (wizard wd) - 1) wd)"
| "wizard_step (Skip confirmed updated) wd = handleSkip confirmed updated wd"
| "wizard_step (SaveAndContinue created updated) wd = handleSaveAndContinue created updated wd"
| "wizard_step (SkipNotApplicable created updated) wd =
     (if step_at (currentIdx (wizard wd)) = Some Input_shaping
      then handleSaveAsSkipped created updated wd else wd)"
| "wizard_step (EditForm vals) wd = wd\<lparr>wizard := (wizard wd)\<lparr>form := vals\<rparr>\<rparr>"
| "wizard_step Close wd = wd\<lparr>is_open := False\<rparr>"

text \<open>Resuming a session from the list: the wizard is mounted on the session as fetched
  and its open effect runs.\<close>

definition open_wizard :: "ICalibrationSession \<Rightarrow> World" where
  "open_wizard s =
     \<lparr>wizard = open_effect True s (initial_wizard s), session = s, is_open = True\<rparr>"

text \<open>Sidebar rendering of the entry at \<open>idx\<close>.\<close>

definition sidebar_isDone :: "WizardState \<Rightarrow> CalibrationStepType \<Rightarrow> bool" where
  "sidebar_isDone w stepType = (stepType \<in> doneTypes w)"

definition sidebar_shows_check :: "WizardState \<Rightarrow> nat \<Rightarrow> bool" where
  "sidebar_shows_check w idx =
     (case step_at idx of
        None \<Rightarrow> False
      | Some stepType \<Rightarrow> sidebar_isDone w stepType \<and> \<not> (idx = currentIdx w))"

section \<open>Standalone step form (StepResultDrawer)\<close>

record DrawerValues =
  d_step_type :: CalibrationStepType
  d_inputs :: "jsobj option"
  d_result :: "jsobj option"
  d_notes :: "string option"
  d_confidence :: "string option"

definition drawer_payload :: "DrawerValues \<Rightarrow> StepValues" where
  "drawer_payload vals =
     \<lparr>v_step_type = d_step_type vals, v_inputs = d_inputs vals,
      v_outputs = d_result vals, v_selected_values = d_result vals,
      v_notes = d_notes vals, v_confidence = d_confidence vals\<rparr>"

text \<open>\<^verbatim>\<open>onFinish\<close>: create when adding, update of the edited step otherwise; the request
  succeeds or not.\<close>

definition onFinish ::
  "bool \<Rightarrow> ICalibrationStepResult option \<Rightarrow> DrawerValues \<Rightarrow> ICalibrationSession
     \<Rightarrow> ICalibrationSession" where
  "onFinish ok step vals s =
     (if \<not> ok then s
      else case step of
             None \<Rightarrow> backend_create_step (drawer_payload vals) s
           | Some st \<Rightarrow> backend_update_step (step_id st) (drawer_payload vals) s)"

section \<open>Session list and summary (CalibrationSection)\<close>

datatype StepTag = Skipped | Done | Incomplete

definition isSkipped :: "ICalibrationStepResult \<Rightarrow> bool" where
  "isSkipped step =
     (case outputs step of None \<Rightarrow> False | Some out \<Rightarrow> out ''_skipped'' = Some (JBool True))"

definition hasRecommended :: "ICalibrationStepResult \<Rightarrow> bool" where
  "hasRecommended step = (\<not> isSkipped step \<and> nonempty_obj (selected_values step))"

definition isIncomplete :: "ICalibrationStepResult \<Rightarrow> bool" where
  "isIncomplete step = (\<not> isSkipped step \<and> \<not> hasRecommended step)"

text \<open>The status tags \<^verbatim>\<open>StepList\<close> renders for a step, in order.\<close>

definition step_tags :: "ICalibrationStepResult \<Rightarrow> StepTag list" where
  "step_tags step =
     (if isSkipped step then [Skipped] else []) @
     (if hasRecommended step then [Done] else []) @
     (if isIncomplete step then [Incomplete] else [])"

text \<open>\<^verbatim>\<open>RecommendedSummary\<close>: the two nested loops that fill \<^verbatim>\<open>latestByType\<close>.\<close>

definition record_step ::
  "ICalibrationStepResult \<Rightarrow> (CalibrationStepType \<rightharpoonup> ICalibrationStepResult)
     \<Rightarrow> (CalibrationStepType \<rightharpoonup> ICalibrationStepResult)" where
  "record_step step latest =
     (if nonempty_obj (selected_values step) then latest(step_type step \<mapsto> step) else latest)"

definition latestByType ::
  "ICalibrationSession list \<Rightarrow> (CalibrationStepType \<rightharpoonup> ICalibrationStepResult)" where
  "latestByType sessions =
     fold (\<lambda>session latest. fold record_step (steps session) latest) (rev sessions) Map.empty"

text \<open>The \<^verbatim>\<open>vals\<close> of a tile: the recommended keys whose selected value is neither
  \<^verbatim>\<open>undefined\<close> nor \<^verbatim>\<open>null\<close>, with the value (before it is formatted for display).\<close>

definition recommended_vals ::
  "CalibrationStepType \<Rightarrow> ICalibrationStepResult \<Rightarrow> (string \<times> jsval) list" where
  "recommended_vals stepType step =
     map (\<lambda>k. (k, the (or_empty (selected_values step) k)))
       (filter (\<lambda>k. or_empty (selected_values step) k \<noteq> None \<and>
                    or_empty (selected_values step) k \<noteq> Some JNull)
          (recommendedKeys (STEP_CONFIGS stepType)))"

text \<open>The tile of a step type: none when no step was collected for it or when \<^verbatim>\<open>vals\<close>
  is empty.\<close>

definition summary_tile ::
  "ICalibrationSession list \<Rightarrow> CalibrationStepType \<Rightarrow> (string \<times> jsval) list option" where
  "summary_tile sessions stepType =
     (case latestByType sessions stepType of
        None \<Rightarrow> None
      | Some step \<Rightarrow>
          (let vals = recommended_vals stepType step
           in if vals = [] then None else Some vals))"

section \<open>Vocabulary of the formula contract\<close>

text \<open>The keys that the \<^verbatim>\<open>autoCompute\<close> of a step type reads from \<^verbatim>\<open>inputs\<close>.\<close>

definition formula_inputs :: "CalibrationStepType \<Rightarrow> string list" where
  "formula_inputs st =
     (case st of
        Volumetric_speed \<Rightarrow> [''start_speed'', ''step_size'', ''measured_height'']
      | Pressure_advance \<Rightarrow> [''pa_step_a'', ''measured_height_b'']
      | Retraction \<Rightarrow> [''start_retract'', ''measured_height'', ''factor'']
      | Tolerance \<Rightarrow> [''test_size'', ''measured_size'']
      | _ \<Rightarrow> [])"

text \<open>Present and numeric: neither \<^verbatim>\<open>undefined\<close>, nor \<^verbatim>\<open>null\<close>, nor NaN.\<close>

fun is_number :: "jsnumber option option \<Rightarrow> bool" where
  "is_number (Some (Some (Num r))) = True"
| "is_number _ = False"

definition all_numeric :: "CalibrationStepType \<Rightarrow> num_record \<Rightarrow> bool" where
  "all_numeric st ins = list_all (\<lambda>k. is_number (ins k)) (formula_inputs st)"

section \<open>Example sessions\<close>

text \<open>A session in progress whose temperature and flow-rate steps were saved with
  Save and Continue.\<close>

definition resume_example :: ICalibrationSession where
  "resume_example =
     \<lparr>sid = 7, filament_id = 3, status = In_progress,
      steps =
        [stored_step 1 7 (save_values Temperature
           \<lparr>f_inputs = None, f_result = Some [''temperature'' \<mapsto> JNum 215],
            f_notes = None, f_confidence = None\<rparr>),
         stored_step 2 7 (save_values Flow_rate
           \<lparr>f_inputs = None, f_result = Some [''flow_ratio'' \<mapsto> JNum (39 / 40)],
            f_notes = None, f_confidence = None\<rparr>)]\<rparr>"

text \<open>The same session with the last step (VFA) selected in the open wizard.\<close>

definition last_step_example :: World where
  "last_step_example =
     \<lparr>wizard = navigateTo 8 (open_effect True resume_example (initial_wizard resume_example)),
      session = resume_example, is_open = True\<rparr>"

text \<open>A new session; the user goes to input shaping and skips it as not applicable
  (\<open>skipped_once\<close>).  Later the wizard is opened again on the session as stored, the user
  goes back to input shaping and presses Save and Continue without editing
  (\<open>skipped_revisited\<close>).\<close>

definition empty_session :: ICalibrationSession where
  "empty_session = \<lparr>sid = 7, filament_id = 3, status = In_progress, steps = []\<rparr>"

definition skipped_once :: World where
  "skipped_once =
     wizard_step (SkipNotApplicable True True)
       (wizard_step (SidebarClick 7) (open_wizard empty_session))"

definition skipped_revisited :: World where
  "skipped_revisited =
     wizard_step (SaveAndContinue True True)
       (wizard_step (SidebarClick 7) (open_wizard (session skipped_once)))"

text \<open>A session whose temperature step was saved from an empty form: the step is
  neither skipped nor has selected values.\<close>

definition incomplete_example :: ICalibrationSession where
  "incomplete_example =
     \<lparr>sid = 9, filament_id = 3, status = In_progress,
      steps = [stored_step 1 9 (save_values Temperature resetFields)]\<rparr>"

section \<open>Invariant of the done-set\<close>

text \<open>The done-set of the wizard holds exactly the step types of the steps stored for
  the session.\<close>

definition done_matches :: "World \<Rightarrow> bool" where
  "done_matches wd = (doneTypes (wizard wd) = step_type ` set (steps (session wd)))"

section \<open>Vocabulary of the recommended-settings summary\<close>

text \<open>A step counts for step type \<open>t\<close> when it is of that type and its selected values
  are a non-empty mapping.\<close>

definition qualifies :: "CalibrationStepType \<Rightarrow> ICalibrationStepResult \<Rightarrow> bool" where
  "qualifies t st = (step_type st = t \<and> nonempty_obj (selected_values st))"

text \<open>Recency is the order of the lists: the session list comes most recent first and
  each session lists its steps oldest first, so this is every step, oldest first.\<close>

definition oldest_first :: "ICalibrationSession list \<Rightarrow> ICalibrationStepResult list" where
  "oldest_first sessions = concat (map steps (rev sessions))"

text \<open>A session without its steps that have no or empty selected values.\<close>

definition drop_unselected :: "ICalibrationSession \<Rightarrow> ICalibrationSession" where
  "drop_unselected s = s\<lparr>steps := filter (\<lambda>st. nonempty_obj (selected_values st)) (steps s)\<rparr>"

text \<open>A later session of the same filament: temperature saved again, input shaping
  skipped as not applicable.\<close>

definition newer_example :: ICalibrationSession where
  "newer_example =
     \<lparr>sid = 8, filament_id = 3, status = In_progress,
      steps =
        [stored_step 3 8 (save_values Temperature
           \<lparr>f_inputs = None, f_result = Some [''temperature'' \<mapsto> JNum 220],
            f_notes = None, f_confidence = None\<rparr>),
         stored_step 4 8 (skipped_values Input_shaping)]\<rparr>"

text \<open>An older session of the same filament with a tuned input shaper.\<close>

definition shaped_example :: ICalibrationSession where
  "shaped_example =
     \<lparr>sid = 5, filament_id = 3, status = Complete,
      steps =
        [stored_step 1 5 (save_values Input_shaping
           \<lparr>f_inputs = None,
            f_result = Some [''shaper_type_x'' \<mapsto> JStr ''mzv'', ''frequency_x'' \<mapsto> JNum 40],
            f_notes = None, f_confidence = None\<rparr>)]\<rparr>"

section \<open>Rounding\<close>

lemma floor_numeral_div:
  "\<lfloor>(numeral a :: rat) / numeral b\<rfloor> = numeral a div numeral b"
  using floor_divide_of_int_eq [of "numeral a" "numeral b", where ?'a = rat] by simp

lemma ceiling_numeral_div:
  "\<lceil>(numeral a :: rat) / numeral b\<rceil> = - ((- numeral a) div numeral b)"
  using ceiling_divide_eq_div [of "numeral a" "numeral b", where ?'a = rat] by simp

lemma bitlen_0: "bitlen 0 = 0"
  by (simp add: bitlen.simps)

lemma bitlen_1: "bitlen (Suc 0) = Suc 0"
  by (simp add: bitlen.simps)

lemma bitlen_numeral: "bitlen (numeral k) = Suc (bitlen (numeral k div 2))"
  by (subst bitlen.simps) simp

text \<open>The rules that evaluate the rounding of a numeral fraction.\<close>

lemmas double_eval = round_double_def ilog2_def pow2_def round_half_even_def Let_def
  floor_numeral_div ceiling_numeral_div bitlen_0 bitlen_1 bitlen_numeral

lemmas decimal_eval = round_decimal_def floor_numeral_div

lemma round_half_up_grid:
  fixes y :: rat
  shows "\<bar>of_int \<lfloor>y + 1 / 2\<rfloor> - y\<bar> \<le> 1 / 2"
  by linarith

lemma round_decimal_grid: "\<exists>n :: int. round_decimal x d = of_int n / 10 ^ d"
proof (cases "x < 0")
  case True
  then have "round_decimal x d = of_int (- \<lfloor>(- x) * 10 ^ d + 1 / 2\<rfloor>) / 10 ^ d"
    by (simp add: round_decimal_def)
  then show ?thesis by blast
next
  case False
  then have "round_decimal x d = of_int \<lfloor>x * 10 ^ d + 1 / 2\<rfloor> / 10 ^ d"
    by (simp add: round_decimal_def)
  then show ?thesis by blast
qed

lemma round_decimal_near: "\<bar>round_decimal x d - x\<bar> \<le> 1 / (2 * 10 ^ d)"
proof -
  have pos: "(0::rat) < 10 ^ d" by simp
  have key: "\<bar>of_int \<lfloor>y * 10 ^ d + 1 / 2\<rfloor> / 10 ^ d - y\<bar> \<le> 1 / (2 * 10 ^ d)" for y :: rat
  proof -
    have "of_int \<lfloor>y * 10 ^ d + 1 / 2\<rfloor> / 10 ^ d - y
            = (of_int \<lfloor>y * 10 ^ d + 1 / 2\<rfloor> - y * 10 ^ d) / 10 ^ d"
      using pos by (simp add: field_simps)
    then have "\<bar>of_int \<lfloor>y * 10 ^ d + 1 / 2\<rfloor> / 10 ^ d - y\<bar>
            = \<bar>of_int \<lfloor>y * 10 ^ d + 1 / 2\<rfloor> - y * 10 ^ d\<bar> / 10 ^ d"
      using pos by (simp add: abs_divide)
    also have "\<dots> \<le> (1 / 2) / 10 ^ d"
      by (rule divide_right_mono [OF round_half_up_grid]) simp
    finally show ?thesis by simp
  qed
  show ?thesis
  proof (cases "x < 0")
    case True
    have "\<bar>round_decimal x d - x\<bar> = \<bar>of_int \<lfloor>(- x) * 10 ^ d + 1 / 2\<rfloor> / 10 ^ d - (- x)\<bar>"
      using True by (simp add: round_decimal_def abs_minus_commute [symmetric] del: mult_minus_left)
    then show ?thesis using key [of "- x"] by simp
  next
    case False
    then show ?thesis using key [of x] by (simp add: round_decimal_def)
  qed
qed

text \<open>What \<^verbatim>\<open>parseFloat(v.toFixed(d))\<close> is for a finite \<open>v\<close> below \<open>10^21\<close>: the double nearest
  to a multiple of \<open>10^-d\<close> that lies within half of \<open>10^-d\<close> of \<open>v\<close>.\<close>

lemma parseFloat_toFixed:
  assumes "\<bar>v\<bar> < 10 ^ 21"
  shows "\<exists>n :: int. parseFloat (toFixed (Finite v) d) = round_double (of_int n / 10 ^ d)
           \<and> \<bar>of_int n / 10 ^ d - v\<bar> \<le> 1 / (2 * 10 ^ d)"
proof -
  obtain n :: int where n: "round_decimal v d = of_int n / 10 ^ d"
    using round_decimal_grid [of v d] by blast
  have "parseFloat (toFixed (Finite v) d) = round_double (of_int n / 10 ^ d)"
    using assms n by simp
  moreover have "\<bar>of_int n / 10 ^ d - v\<bar> \<le> 1 / (2 * 10 ^ d)"
    using round_decimal_near [of v d] n by simp
  ultimately show ?thesis by blast
qed

text \<open>The error of rounding to a double.\<close>

lemma bitlen_upper: "n < 2 ^ bitlen n"
proof (induction n rule: bitlen.induct)
  case (1 n)
  show ?case
  proof (cases "n = 0")
    case True
    then show ?thesis by (simp add: bitlen.simps)
  next
    case False
    then have "n div 2 < 2 ^ bitlen (n div 2)" using 1 by simp
    then have "n < 2 * 2 ^ bitlen (n div 2)" by linarith
    then show ?thesis using False by (subst bitlen.simps) simp
  qed
qed

lemma bitlen_lower: "0 < n \<Longrightarrow> 2 ^ (bitlen n - 1) \<le> n"
proof (induction n rule: bitlen.induct)
  case (1 n)
  show ?case
  proof (cases "n div 2 = 0")
    case True
    then have "n = 1" using "1.prems" by linarith
    then show ?thesis by (simp add: bitlen.simps)
  next
    case False
    then have ih: "2 ^ (bitlen (n div 2) - 1) \<le> n div 2" using 1 by simp
    have pos: "0 < bitlen (n div 2)" using False by (subst bitlen.simps) simp
    have "bitlen n = Suc (bitlen (n div 2))" using "1.prems" by (subst bitlen.simps) simp
    then have "(2::nat) ^ (bitlen n - 1) = 2 * 2 ^ (bitlen (n div 2) - 1)"
      using pos by (cases "bitlen (n div 2)") simp_all
    also have "\<dots> \<le> 2 * (n div 2)" using ih by simp
    also have "\<dots> \<le> n" by simp
    finally show ?thesis .
  qed
qed

lemma pow2_pos: "0 < pow2 e"
  by (simp add: pow2_def)

lemma pow2_diff: "pow2 (e - int k) = pow2 e / 2 ^ k"
proof -
  have "pow2 e = power_int 2 e" for e
    by (simp add: pow2_def power_int_def inverse_eq_divide power_one_over)
  then show ?thesis by (simp add: power_int_diff)
qed

lemma ilog2_lower:
  assumes "0 < a"
  shows "pow2 (ilog2 a) \<le> a"
proof (cases "1 \<le> a")
  case True
  let ?n = "nat \<lfloor>a\<rfloor>"
  have n: "0 < ?n" using True by simp
  have "(2::rat) ^ (bitlen ?n - 1) = of_nat (2 ^ (bitlen ?n - 1))" by simp
  also have "\<dots> \<le> of_nat ?n" using bitlen_lower [OF n] by (simp only: of_nat_le_iff)
  also have "\<dots> \<le> a" using True by (simp add: of_nat_nat)
  finally have "(2::rat) ^ (bitlen ?n - 1) \<le> a" .
  moreover have "0 < bitlen ?n" using n by (subst bitlen.simps) simp
  ultimately show ?thesis using True
    by (simp add: ilog2_def pow2_def nat_diff_distrib' of_nat_diff)
next
  case False
  let ?m = "nat (\<lceil>1 / a\<rceil> - 1)"
  have "1 < 1 / a" using False assms by simp
  then have c: "1 \<le> \<lceil>1 / a\<rceil> - 1" by linarith
  have "1 / a \<le> of_int \<lceil>1 / a\<rceil>" by simp
  also have "\<dots> = of_nat (?m + 1)"
  proof -
    define k where "k = \<lceil>1 / a\<rceil>"
    have "1 \<le> k - 1" using c by (simp only: k_def)
    then have "int (nat (k - 1) + 1) = k" by simp
    then have "(of_int k :: rat) = of_int (int (nat (k - 1) + 1))" by simp
    then have "(of_int k :: rat) = of_nat (nat (k - 1) + 1)" by (simp only: of_int_of_nat_eq)
    then show ?thesis by (simp only: k_def)
  qed
  also have "\<dots> \<le> of_nat (2 ^ bitlen ?m)"
    using bitlen_upper [of ?m] by (simp only: of_nat_le_iff)
  finally have "1 / a \<le> 2 ^ bitlen ?m" by simp
  then have "1 / 2 ^ bitlen ?m \<le> a" using assms by (simp add: field_simps)
  moreover have "pow2 (- int b) = 1 / 2 ^ b" for b
    by (cases "b = 0") (simp_all add: pow2_def)
  ultimately show ?thesis using False
    by (simp add: ilog2_def)
qed

lemma round_half_even_near: "\<bar>of_int (round_half_even z) - z\<bar> \<le> 1 / 2"
proof -
  define f where "f = \<lfloor>z\<rfloor>"
  have b: "of_int f \<le> z" "z < of_int f + 1" unfolding f_def by linarith+
  consider "z - of_int f < 1 / 2" | "1 / 2 < z - of_int f" | "z - of_int f = 1 / 2"
    by linarith
  then show ?thesis
  proof cases
    case 1
    then have "round_half_even z = f" by (simp add: round_half_even_def f_def Let_def)
    then show ?thesis using 1 b by simp
  next
    case 2
    then have "round_half_even z = f + 1" by (simp add: round_half_even_def f_def Let_def)
    then show ?thesis using 2 b by simp
  next
    case 3
    then have "round_half_even z = f \<or> round_half_even z = f + 1"
      by (simp add: round_half_even_def f_def Let_def)
    then show ?thesis using 3 by auto
  qed
qed

lemma round_double_error:
  assumes "round_double x = Finite y"
  shows "\<bar>y - x\<bar> \<le> rounding_bound x"
proof (cases "x = 0")
  case True
  then show ?thesis using assms by (simp add: round_double_def rounding_bound_def)
next
  case False
  define a where "a = \<bar>x\<bar>"
  define e where "e = max (ilog2 a) (- 1022)"
  define q where "q = pow2 (e - 52)"
  define n where "n = round_half_even (a / q)"
  have a: "0 < a" using False by (simp add: a_def)
  have q: "0 < q" by (simp add: q_def pow2_pos)
  have y: "y = (if x < 0 then - (of_int n * q) else of_int n * q)"
    using assms False
    by (simp add: round_double_def Let_def a_def e_def q_def n_def split: if_splits)
  have "\<bar>y - x\<bar> = \<bar>of_int n * q - a\<bar>"
    using y by (auto simp: a_def)
  also have "\<dots> = \<bar>of_int n - a / q\<bar> * q"
  proof -
    have "of_int n * q - a = (of_int n - a / q) * q" using q by (simp add: field_simps)
    then show ?thesis using q by (simp add: abs_mult)
  qed
  also have "\<dots> \<le> (1 / 2) * q"
    using round_half_even_near [of "a / q"] q by (simp add: n_def mult_right_mono)
  finally have half: "\<bar>y - x\<bar> \<le> q / 2" by simp
  have "q / 2 \<le> max (a / 2 ^ 53) (1 / 2 ^ 1075)"
  proof (cases "- 1022 \<le> ilog2 a")
    case True
    then have "e = ilog2 a" by (simp add: e_def)
    then have "q / 2 = pow2 (ilog2 a) / 2 ^ 53"
      using pow2_diff [of "ilog2 a" 52] by (simp add: q_def)
    also have "\<dots> \<le> a / 2 ^ 53"
      using ilog2_lower [OF a] by (simp add: divide_right_mono)
    finally show ?thesis by simp
  next
    case False
    then have "e = - 1022" by (simp add: e_def)
    then have "q / 2 = 1 / 2 ^ 1075" by (simp add: q_def pow2_def)
    then show ?thesis by simp
  qed
  then show ?thesis using half by (simp add: a_def rounding_bound_def)
qed

text \<open>An exact result of \<open>2^1024\<close> or more rounds to infinity.\<close>

lemma round_double_overflow:
  assumes "2 ^ 1024 \<le> x"
  shows "round_double x = PosInfinity"
proof -
  let ?n = "nat \<lfloor>x\<rfloor>"
  have "(2 :: int) ^ 1024 \<le> \<lfloor>x\<rfloor>" using assms by (simp add: le_floor_iff)
  then have "(2 :: nat) ^ 1024 \<le> ?n" by (simp add: le_nat_iff)
  also have "?n < 2 ^ bitlen ?n" by (rule bitlen_upper)
  finally have "1024 < bitlen ?n" by (simp only: power_strict_increasing_iff)
  then have "1024 \<le> ilog2 x" using assms by (simp add: ilog2_def)
  moreover have "0 < x" using assms by (rule less_le_trans [rotated]) simp
  ultimately show ?thesis by (simp add: round_double_def)
qed

text \<open>The operators on finite operands: a finite result is within the rounding bound of
  the exact one.\<close>

lemma js_add_error:
  "js_add (Finite a) (Finite b) = Finite v \<Longrightarrow> \<bar>v - (a + b)\<bar> \<le> rounding_bound (a + b)"
  by (simp add: round_double_error)

lemma js_mul_error:
  "js_mul (Finite a) (Finite b) = Finite v \<Longrightarrow> \<bar>v - a * b\<bar> \<le> rounding_bound (a * b)"
  by (simp add: round_double_error)

lemma js_div_error:
  "b \<noteq> 0 \<Longrightarrow> js_div (Finite a) (Finite b) = Finite v
     \<Longrightarrow> \<bar>v - a / b\<bar> \<le> rounding_bound (a / b)"
  by (simp add: round_double_error)

section \<open>Volumetric speed formula\<close>

text \<open>
  Claim C3 at an input that breaks it.  Start speed 34.75, measured height 2.5 and step
  size 31.37, each as the double the form holds (34.75 and 2.5 are doubles, 31.37 is
  read as the double nearest to it).  The auto-compute returns the double of 113.17.
  The sum \<open>start_speed + measured_height * step_size\<close> rounded to two decimals is
  113.18, whether it is taken on the decimals as typed (113.175, a tie) or exactly on
  the doubles (just above the tie): 113.18 lies within half a hundredth of the exact
  sum and 113.17 does not.  The product and the sum are each rounded to a double before
  \<^verbatim>\<open>toFixed\<close> sees them, and the rounded sum lies below the tie.
\<close>

theorem C3_volumetric_speed_counterexample:
  "is_double (139 / 4) \<and> is_double (5 / 2)
   \<and> round_double (3137 / 100) = Finite (8829870019413279 / 281474976710656)
   \<and> autoCompute_volumetric_speed
       [''start_speed'' \<mapsto> Some (Num (139 / 4)),
        ''step_size'' \<mapsto> Some (Num (8829870019413279 / 281474976710656)),
        ''measured_height'' \<mapsto> Some (Num (5 / 2))]
       = [''max_volumetric_speed'' \<mapsto> round_double (11317 / 100)]
   \<and> round_decimal (139 / 4 + 5 / 2 * (8829870019413279 / 281474976710656)) 2 = 11318 / 100
   \<and> round_decimal (139 / 4 + 5 / 2 * (3137 / 100)) 2 = 11318 / 100
   \<and> \<bar>139 / 4 + 5 / 2 * (8829870019413279 / 281474976710656) - 11318 / 100\<bar> < (1 / 200 :: rat)
   \<and> round_double (11317 / 100) \<noteq> round_double (11318 / 100)
   \<and> round_double (11317 / 100) \<noteq> Finite (11318 / 100)"
proof -
  have 1: "is_double (139 / 4) \<and> is_double (5 / 2)"
    by (simp add: is_double_def double_eval)
  have 2: "round_double (3137 / 100) = Finite (8829870019413279 / 281474976710656)"
    by (simp add: double_eval)
  have 3: "autoCompute_volumetric_speed
       [''start_speed'' \<mapsto> Some (Num (139 / 4)),
        ''step_size'' \<mapsto> Some (Num (8829870019413279 / 281474976710656)),
        ''measured_height'' \<mapsto> Some (Num (5 / 2))]
       = [''max_volumetric_speed'' \<mapsto> round_double (11317 / 100)]"
    by (simp add: autoCompute_volumetric_speed_def not_null_def double_eval decimal_eval)
  have 4: "round_decimal (139 / 4 + 5 / 2 * (8829870019413279 / 281474976710656)) 2 = 11318 / 100"
    by (simp add: decimal_eval)
  have 5: "round_decimal (139 / 4 + 5 / 2 * (3137 / 100)) 2 = 11318 / 100"
    by (simp add: decimal_eval)
  have 6: "\<bar>139 / 4 + 5 / 2 * (8829870019413279 / 281474976710656) - 11318 / 100\<bar> < (1 / 200 :: rat)"
    by simp
  have 7: "round_double (11317 / 100) \<noteq> round_double (11318 / 100)"
    by (simp add: double_eval)
  have 8: "round_double (11317 / 100) \<noteq> Finite (11318 / 100)"
    by (simp add: double_eval)
  show ?thesis
    using 1 2 3 4 5 6 7 8 by blast
qed

text \<open>
  Claim C3, amended.  When \<^verbatim>\<open>start_speed\<close>, \<^verbatim>\<open>step_size\<close> and \<^verbatim>\<open>measured_height\<close> are all
  numbers, the auto-compute of the volumetric-speed step returns exactly one output,
  \<^verbatim>\<open>max_volumetric_speed\<close>: the value of \<open>start_speed + measured_height * step_size\<close>
  in double arithmetic (the product rounded to a double, then the sum rounded to a
  double), written with two decimals by \<^verbatim>\<open>toFixed\<close> and read back by \<^verbatim>\<open>parseFloat\<close>.
  When the rounded product \<open>p\<close> and the rounded sum \<open>v\<close> are finite and \<open>v\<close> is below
  \<open>10^21\<close> in magnitude, each is within the rounding bound of the exact product and
  sum of its operands, and the output is the double nearest to a whole number of
  hundredths that lies within half a hundredth of \<open>v\<close>.
\<close>

theorem C3_volumetric_speed_double:
  assumes "ins ''start_speed'' = Some (Some (Num start))"
    and "ins ''step_size'' = Some (Some (Num step))"
    and "ins ''measured_height'' = Some (Some (Num h))"
  shows "autoCompute (STEP_CONFIGS Volumetric_speed) = Some autoCompute_volumetric_speed
       \<and> autoCompute_volumetric_speed ins
           = [''max_volumetric_speed'' \<mapsto>
                parseFloat (toFixed (js_add (Finite start) (js_mul (Finite h) (Finite step))) 2)]
       \<and> (\<forall>p v. js_mul (Finite h) (Finite step) = Finite p
                \<and> js_add (Finite start) (Finite p) = Finite v \<and> \<bar>v\<bar> < 10 ^ 21
             \<longrightarrow> \<bar>p - h * step\<bar> \<le> rounding_bound (h * step)
                \<and> \<bar>v - (start + p)\<bar> \<le> rounding_bound (start + p)
                \<and> (\<exists>n :: int. autoCompute_volumetric_speed ins
                                  = [''max_volumetric_speed'' \<mapsto> round_double (of_int n / 100)]
                      \<and> \<bar>of_int n / 100 - v\<bar> \<le> 1 / 200))"
proof -
  have f: "autoCompute_volumetric_speed ins
           = [''max_volumetric_speed'' \<mapsto>
                parseFloat (toFixed (js_add (Finite start) (js_mul (Finite h) (Finite step))) 2)]"
    using assms by (simp add: autoCompute_volumetric_speed_def not_null_def)
  have g: "\<bar>p - h * step\<bar> \<le> rounding_bound (h * step)
           \<and> \<bar>v - (start + p)\<bar> \<le> rounding_bound (start + p)
           \<and> (\<exists>n :: int. autoCompute_volumetric_speed ins
                             = [''max_volumetric_speed'' \<mapsto> round_double (of_int n / 100)]
                 \<and> \<bar>of_int n / 100 - v\<bar> \<le> 1 / 200)"
    if p: "js_mul (Finite h) (Finite step) = Finite p"
      and v: "js_add (Finite start) (Finite p) = Finite v" and b: "\<bar>v\<bar> < 10 ^ 21" for p v
  proof -
    obtain n :: int where n: "parseFloat (toFixed (Finite v) 2) = round_double (of_int n / 10 ^ 2)"
        "\<bar>of_int n / 10 ^ 2 - v\<bar> \<le> 1 / (2 * 10 ^ 2)"
      using parseFloat_toFixed [OF b, of 2] by blast
    have "autoCompute_volumetric_speed ins
            = [''max_volumetric_speed'' \<mapsto> round_double (of_int n / 100)]"
      using n(1) by (simp only: f p v) simp
    moreover have "\<bar>of_int n / 100 - v\<bar> \<le> 1 / 200" using n(2) by simp
    ultimately show ?thesis using js_mul_error [OF p] js_add_error [OF v] by blast
  qed
  show ?thesis using f g by simp
qed

theorem C3_volumetric_speed_double_witness:
  "js_mul (Finite (29 / 4)) (Finite (1 / 2)) = Finite (29 / 8)
   \<and> js_add (Finite 5) (Finite (29 / 8)) = Finite (69 / 8)
   \<and> autoCompute_volumetric_speed
       [''start_speed'' \<mapsto> Some (Num 5), ''step_size'' \<mapsto> Some (Num (1 / 2)),
        ''measured_height'' \<mapsto> Some (Num (29 / 4))]
       = [''max_volumetric_speed'' \<mapsto> round_double (863 / 100)]
   \<and> (\<exists>n :: int. autoCompute_volumetric_speed
                    [''start_speed'' \<mapsto> Some (Num 5), ''step_size'' \<mapsto> Some (Num (1 / 2)),
                     ''measured_height'' \<mapsto> Some (Num (29 / 4))]
                    = [''max_volumetric_speed'' \<mapsto> round_double (of_int n / 100)]
            \<and> \<bar>of_int n / 100 - 69 / 8\<bar> \<le> (1 / 200 :: rat))"
proof -
  let ?ins = "[''start_speed'' \<mapsto> Some (Num 5), ''step_size'' \<mapsto> Some (Num (1 / 2)),
               ''measured_height'' \<mapsto> Some (Num (29 / 4))]"
  have a: "?ins ''start_speed'' = Some (Some (Num 5))" by simp
  have b: "?ins ''step_size'' = Some (Some (Num (1 / 2)))" by simp
  have c: "?ins ''measured_height'' = Some (Some (Num (29 / 4)))" by simp
  have p: "js_mul (Finite (29 / 4)) (Finite (1 / 2)) = Finite (29 / 8)"
    by (simp add: double_eval)
  have v: "js_add (Finite 5) (Finite (29 / 8)) = Finite (69 / 8)"
    by (simp add: double_eval)
  have s: "\<bar>69 / 8\<bar> < (10 :: rat) ^ 21" by simp
  have r: "parseFloat (toFixed (Finite (69 / 8)) 2) = round_double (863 / 100)"
    by (simp add: decimal_eval)
  note th = C3_volumetric_speed_double [OF a b c]
  from th have "autoCompute_volumetric_speed ?ins
       = [''max_volumetric_speed'' \<mapsto>
            parseFloat (toFixed (js_add (Finite 5) (js_mul (Finite (29 / 4)) (Finite (1 / 2)))) 2)]"
    by blast
  then have f: "autoCompute_volumetric_speed ?ins
       = [''max_volumetric_speed'' \<mapsto> round_double (863 / 100)]"
    by (simp only: p v r)
  from th p v s have g: "\<exists>n :: int. autoCompute_volumetric_speed ?ins
                    = [''max_volumetric_speed'' \<mapsto> round_double (of_int n / 100)]
            \<and> \<bar>of_int n / 100 - 69 / 8\<bar> \<le> (1 / 200 :: rat)"
    by blast
  show ?thesis using p v f g by blast
qed

text \<open>The formula at start speed 11.327, step size 1.316 and measured height 0.5, as
  doubles: 11.98, where the sum of the decimals (11.985) rounds to 11.99.\<close>

lemma volumetric_speed_example:
  "round_double (11327 / 1000) = Finite (6376534122403201 / 562949953421312)
   \<and> round_double (1316 / 1000) = Finite (5926737109619573 / 4503599627370496)
   \<and> autoCompute_volumetric_speed
        [''start_speed'' \<mapsto> Some (Num (6376534122403201 / 562949953421312)),
         ''step_size'' \<mapsto> Some (Num (5926737109619573 / 4503599627370496)),
         ''measured_height'' \<mapsto> Some (Num (1 / 2))]
       = [''max_volumetric_speed'' \<mapsto> round_double (1198 / 100)]"
proof -
  have 1: "round_double (11327 / 1000) = Finite (6376534122403201 / 562949953421312)"
    by (simp add: double_eval)
  have 2: "round_double (1316 / 1000) = Finite (5926737109619573 / 4503599627370496)"
    by (simp add: double_eval)
  have 3: "autoCompute_volumetric_speed
        [''start_speed'' \<mapsto> Some (Num (6376534122403201 / 562949953421312)),
         ''step_size'' \<mapsto> Some (Num (5926737109619573 / 4503599627370496)),
         ''measured_height'' \<mapsto> Some (Num (1 / 2))]
       = [''max_volumetric_speed'' \<mapsto> round_double (1198 / 100)]"
    by (simp add: autoCompute_volumetric_speed_def not_null_def double_eval decimal_eval)
  show ?thesis using 1 2 3 by blast
qed

text \<open>A product that overflows makes the output \<^verbatim>\<open>Infinity\<close>.\<close>

lemma volumetric_speed_overflow:
  "autoCompute_volumetric_speed
     [''start_speed'' \<mapsto> Some (Num 0), ''step_size'' \<mapsto> Some (Num (2 ^ 1023)),
      ''measured_height'' \<mapsto> Some (Num 2)]
     = [''max_volumetric_speed'' \<mapsto> PosInfinity]"
proof -
  have "js_mul (Finite 2) (Finite (2 ^ 1023)) = PosInfinity"
    using round_double_overflow [of "2 * 2 ^ 1023"] by simp
  then show ?thesis
    by (simp add: autoCompute_volumetric_speed_def not_null_def)
qed

text \<open>The other formulas round their double result in the same way: 0.0045 times 0.1
  gives 0.0004 (not 0.0005), and 20 minus 20.1255 gives -0.125 (not -0.126).\<close>

lemma pressure_advance_example:
  "round_double (45 / 10000) = Finite (5188146770730811 / 1152921504606846976)
   \<and> round_double (1 / 10) = Finite (3602879701896397 / 36028797018963968)
   \<and> autoCompute_pressure_advance
        [''pa_step_a'' \<mapsto> Some (Num (5188146770730811 / 1152921504606846976)),
         ''measured_height_b'' \<mapsto> Some (Num (3602879701896397 / 36028797018963968))]
       = [''pressure_advance'' \<mapsto> round_double (4 / 10000)]"
proof -
  have 1: "round_double (45 / 10000) = Finite (5188146770730811 / 1152921504606846976)"
    by (simp add: double_eval)
  have 2: "round_double (1 / 10) = Finite (3602879701896397 / 36028797018963968)"
    by (simp add: double_eval)
  have 3: "autoCompute_pressure_advance
        [''pa_step_a'' \<mapsto> Some (Num (5188146770730811 / 1152921504606846976)),
         ''measured_height_b'' \<mapsto> Some (Num (3602879701896397 / 36028797018963968))]
       = [''pressure_advance'' \<mapsto> round_double (4 / 10000)]"
    by (simp add: autoCompute_pressure_advance_def not_null_def double_eval decimal_eval)
  show ?thesis using 1 2 3 by blast
qed

lemma tolerance_example:
  "round_double (201255 / 10000) = Finite (5664824643790307 / 281474976710656)
   \<and> autoCompute_tolerance
        [''test_size'' \<mapsto> Some (Num 20),
         ''measured_size'' \<mapsto> Some (Num (5664824643790307 / 281474976710656))]
       = [''tolerance_offset'' \<mapsto> Finite (- (1 / 8))]"
proof -
  have 1: "round_double (201255 / 10000) = Finite (5664824643790307 / 281474976710656)"
    by (simp add: double_eval)
  have 2: "autoCompute_tolerance
        [''test_size'' \<mapsto> Some (Num 20),
         ''measured_size'' \<mapsto> Some (Num (5664824643790307 / 281474976710656))]
       = [''tolerance_offset'' \<mapsto> Finite (- (1 / 8))]"
    by (simp add: autoCompute_tolerance_def js_sub_def not_null_def double_eval decimal_eval)
  show ?thesis using 1 2 by blast
qed

section \<open>The formula contract\<close>

lemma guard_is_number: "not_null v \<and> \<not> isNaN v \<longleftrightarrow> is_number v"
  by (cases v rule: isNaN.cases) (simp_all add: not_null_def)

lemma fires_volumetric_speed:
  "autoCompute_volumetric_speed ins \<noteq> Map.empty \<longleftrightarrow> all_numeric Volumetric_speed ins"
  using guard_is_number [of "ins ''start_speed''"] guard_is_number [of "ins ''step_size''"]
    guard_is_number [of "ins ''measured_height''"]
  by (auto simp: autoCompute_volumetric_speed_def all_numeric_def formula_inputs_def Let_def)

lemma fires_pressure_advance:
  "autoCompute_pressure_advance ins \<noteq> Map.empty \<longleftrightarrow> all_numeric Pressure_advance ins"
  using guard_is_number [of "ins ''pa_step_a''"] guard_is_number [of "ins ''measured_height_b''"]
  by (auto simp: autoCompute_pressure_advance_def all_numeric_def formula_inputs_def Let_def)

lemma fires_retraction:
  "autoCompute_retraction ins \<noteq> Map.empty \<longleftrightarrow> all_numeric Retraction ins"
  using guard_is_number [of "ins ''start_retract''"] guard_is_number [of "ins ''measured_height''"]
    guard_is_number [of "ins ''factor''"]
  by (auto simp: autoCompute_retraction_def all_numeric_def formula_inputs_def Let_def)

lemma fires_tolerance:
  "autoCompute_tolerance ins \<noteq> Map.empty \<longleftrightarrow> all_numeric Tolerance ins"
  using guard_is_number [of "ins ''test_size''"] guard_is_number [of "ins ''measured_size''"]
  by (auto simp: autoCompute_tolerance_def all_numeric_def formula_inputs_def Let_def)

lemma fires_iff:
  assumes "autoCompute (STEP_CONFIGS st) = Some f"
  shows "f ins \<noteq> Map.empty \<longleftrightarrow> all_numeric st ins"
  using assms fires_volumetric_speed fires_pressure_advance fires_retraction fires_tolerance
  by (cases st) auto

lemma effect_unchanged:
  assumes "autoCompute (STEP_CONFIGS st) = Some f" and "\<not> all_numeric st ins"
  shows "autoCompute_effect st m (Some ins) result = result"
  using assms fires_iff [OF assms(1), of ins] by (simp add: autoCompute_effect_def)

lemma effect_fires:
  assumes "autoCompute (STEP_CONFIGS st) = Some f" and "all_numeric st ins"
    and "\<not> (st = Pressure_advance \<and> m = Pattern)"
  shows "autoCompute_effect st m (Some ins) result = Some (or_empty result ++ as_jsobj (f ins))"
  using assms fires_iff [OF assms(1), of ins] by (auto simp: autoCompute_effect_def)

lemma as_jsobj_empty: "as_jsobj Map.empty = Map.empty"
  by (simp add: as_jsobj_def)

lemma as_jsobj_upd: "as_jsobj (m(k \<mapsto> v)) = (as_jsobj m)(k \<mapsto> as_jsval v)"
  by (simp add: as_jsobj_def)

text \<open>
  Claim C2.  Take a step type that has an auto-compute formula \<open>f\<close> (volumetric speed,
  pressure advance, retraction, tolerance).  For every inputs mapping, \<open>f\<close> returns a
  non-empty update exactly when every input the formula reads is present and numeric.
  When one is not, or when the form has no inputs yet, the reactive effect leaves the
  result mapping as it is: nothing is written and nothing is cleared.  When all are
  numeric (and the step is not pressure advance in pattern mode) the effect merges the
  update into the result mapping.  Such a step type is not VFA, whose own effect never
  touches it; the VFA effect on an empty artifact-speed list is the one that writes
  \<^verbatim>\<open>null\<close> into both of its outputs.
\<close>

theorem C2_formula_contract:
  assumes "autoCompute (STEP_CONFIGS st) = Some f"
  shows "(f ins \<noteq> Map.empty \<longleftrightarrow> all_numeric st ins)
       \<and> (\<not> all_numeric st ins \<longrightarrow> autoCompute_effect st m (Some ins) result = result)
       \<and> (all_numeric st ins \<and> \<not> (st = Pressure_advance \<and> m = Pattern) \<longrightarrow>
            autoCompute_effect st m (Some ins) result = Some (or_empty result ++ as_jsobj (f ins)))
       \<and> autoCompute_effect st m None result = result
       \<and> (st \<noteq> Vfa \<and> vfa_effect st speeds result = result)
       \<and> vfa_effect Vfa [] result =
            Some ((or_empty result)(''min_avoidance_speed'' \<mapsto> JNull,
                                    ''max_avoidance_speed'' \<mapsto> JNull))"
proof -
  have "st \<noteq> Vfa" using assms by auto
  then have "vfa_effect st speeds result = result" by (simp add: vfa_effect_def)
  moreover have "autoCompute_effect st m None result = result"
    using assms by (simp add: autoCompute_effect_def)
  moreover have "vfa_effect Vfa [] result =
            Some ((or_empty result)(''min_avoidance_speed'' \<mapsto> JNull,
                                    ''max_avoidance_speed'' \<mapsto> JNull))"
    by (simp add: vfa_effect_def)
  ultimately show ?thesis
    using fires_iff [OF assms] effect_unchanged [OF assms] effect_fires [OF assms] \<open>st \<noteq> Vfa\<close>
    by blast
qed

theorem C2_formula_contract_witness:
  "autoCompute_tolerance [''test_size'' \<mapsto> Some (Num 20), ''measured_size'' \<mapsto> None] = Map.empty
   \<and> autoCompute_effect Tolerance Tower
        (Some [''test_size'' \<mapsto> Some (Num 20), ''measured_size'' \<mapsto> None])
        (Some [''tolerance_offset'' \<mapsto> JNum (1 / 10)])
       = Some [''tolerance_offset'' \<mapsto> JNum (1 / 10)]
   \<and> \<not> all_numeric Tolerance [''test_size'' \<mapsto> Some (Num 20), ''measured_size'' \<mapsto> None]"
  using C2_formula_contract [of Tolerance autoCompute_tolerance
      "[''test_size'' \<mapsto> Some (Num 20), ''measured_size'' \<mapsto> None]" Tower
      "Some [''tolerance_offset'' \<mapsto> JNum (1 / 10)]"]
  by (simp add: all_numeric_def formula_inputs_def)

section \<open>Pressure advance in pattern mode\<close>

text \<open>With the tower method and numeric tower inputs the effect does write the output.\<close>

lemma tower_method_computes:
  "autoCompute_effect Pressure_advance Tower
     (Some [''pa_step_a'' \<mapsto> Some (Num (1 / 4)), ''measured_height_b'' \<mapsto> Some (Num 10)])
     (Some Map.empty) = Some [''pressure_advance'' \<mapsto> JNum (5 / 2)]"
  by (simp add: autoCompute_effect_def autoCompute_pressure_advance_def not_null_def
      double_eval decimal_eval or_empty_def as_jsobj_upd as_jsobj_empty)

lemma pattern_effect_id:
  "autoCompute_effect Pressure_advance Pattern inputValues result = result"
  by (simp add: autoCompute_effect_def split: option.splits)

lemma pattern_effect_sequence:
  "fold (autoCompute_effect Pressure_advance Pattern) changes result = result"
  by (induction changes) (simp_all add: pattern_effect_id)

text \<open>
  Claim C7.  While the pressure-advance method is "pattern", the auto-compute effect of
  the wizard and of the standalone step form returns the result mapping untouched
  for every inputs mapping, so also when tower inputs \<^verbatim>\<open>pa_step_a\<close> and
  \<^verbatim>\<open>measured_height_b\<close> are still set: no \<^verbatim>\<open>pressure_advance\<close> is written from them,
  however often the inputs change.  Right after the switch to "pattern", which empties
  the result mapping, the effect leaves it empty whatever the inputs are.
\<close>

theorem C7_pattern_method_never_computes:
  "autoCompute_effect Pressure_advance Pattern inputValues result = result
   \<and> drawer_autoCompute_effect (Some Pressure_advance) Pattern inputValues result = result
   \<and> fold (autoCompute_effect Pressure_advance Pattern) changes result = result
   \<and> autoCompute_effect Pressure_advance (fst (handlePaMethodChange Pattern)) inputValues
         (snd (handlePaMethodChange Pattern)) = Some Map.empty"
  using pattern_effect_id [of inputValues result] pattern_effect_sequence [of changes result]
    pattern_effect_id [of inputValues "Some Map.empty"]
  by (simp add: drawer_autoCompute_effect_def handlePaMethodChange_def)

section \<open>Flow-rate calculator, legacy method\<close>

lemma pass_value:
  "num_state (Some (Finite x)) = Finite x" "isNaN_state (Some (Finite x)) = False"
  by (simp_all add: num_state_def isNaN_state_def)

text \<open>
  Claim C9 at an input that breaks it.  Pass 1 with flow ratio 1.3365 (held as the
  double nearest to it) and modifier -1 has the result 1.32313.  The value of
  \<open>ratio * (100 + modifier) / 100\<close> rounded to five decimals is 1.32314, whether it is
  taken on the decimals as typed (1.323135, a tie) or exactly on the doubles: 1.32314
  lies within half a hundred-thousandth of the exact value and 1.32313 does not.  The
  product and the quotient are each rounded to a double before \<^verbatim>\<open>toFixed\<close> sees them.
\<close>

theorem C9_legacy_pass_counterexample:
  "round_double (13365 / 10000) = Finite (1504765225495167 / 1125899906842624)
   \<and> is_double (- 1)
   \<and> pass1Result
       \<lparr>flowCalcMethod = Legacy, flowCalcPhase = Pass1,
        yoloFlowRatioOld = Some (Finite 1), yoloModifier = None,
        pass1FlowRatio = Some (Finite (1504765225495167 / 1125899906842624)),
        pass1Modifier = Some (Finite (- 1)),
        pass2FlowRatio = None, pass2Modifier = None\<rparr>
       = Some (round_double (132313 / 100000))
   \<and> round_decimal (1504765225495167 / 1125899906842624 * (100 + (- 1)) / 100) 5 = 132314 / 100000
   \<and> round_decimal (13365 / 10000 * (100 + (- 1)) / 100) 5 = 132314 / 100000
   \<and> \<bar>1504765225495167 / 1125899906842624 * (100 + (- 1)) / 100 - 132314 / 100000\<bar>
        < (1 / 200000 :: rat)
   \<and> round_double (132313 / 100000) \<noteq> round_double (132314 / 100000)
   \<and> round_double (132313 / 100000) \<noteq> Finite (132314 / 100000)"
proof -
  have 1: "round_double (13365 / 10000) = Finite (1504765225495167 / 1125899906842624)"
    by (simp add: double_eval)
  have 2: "is_double (- 1)"
    by (simp add: is_double_def double_eval)
  have 3: "pass1Result
       \<lparr>flowCalcMethod = Legacy, flowCalcPhase = Pass1,
        yoloFlowRatioOld = Some (Finite 1), yoloModifier = None,
        pass1FlowRatio = Some (Finite (1504765225495167 / 1125899906842624)),
        pass1Modifier = Some (Finite (- 1)),
        pass2FlowRatio = None, pass2Modifier = None\<rparr>
       = Some (round_double (132313 / 100000))"
    by (simp add: pass1Result_def pass_value double_eval decimal_eval)
  have 4: "round_decimal (1504765225495167 / 1125899906842624 * (100 + (- 1)) / 100) 5 = 132314 / 100000"
    by (simp add: decimal_eval)
  have 5: "round_decimal (13365 / 10000 * (100 + (- 1)) / 100) 5 = 132314 / 100000"
    by (simp add: decimal_eval)
  have 6: "\<bar>1504765225495167 / 1125899906842624 * (100 + (- 1)) / 100 - 132314 / 100000\<bar>
        < (1 / 200000 :: rat)"
    by simp
  have 7: "round_double (132313 / 100000) \<noteq> round_double (132314 / 100000)"
    by (simp add: double_eval)
  have 8: "round_double (132313 / 100000) \<noteq> Finite (132314 / 100000)"
    by (simp add: double_eval)
  show ?thesis
    using 1 2 3 4 5 6 7 8 by blast
qed

text \<open>
  Claim C9, amended.  In the legacy method the result of pass 1, and likewise of pass 2,
  for a finite flow ratio \<open>r\<close> and a finite percentage modifier \<open>m\<close> is the value of
  \<open>r * (100 + m) / 100\<close> in double arithmetic (the sum, the product and the quotient
  each rounded to a double), written with five decimals by \<^verbatim>\<open>toFixed\<close> and read back by
  \<^verbatim>\<open>parseFloat\<close>.  When the three rounded values are finite and the quotient \<open>v\<close> is
  below \<open>10^21\<close> in magnitude, each is within the rounding bound of the exact result
  of its operands, and the pass result is the double nearest to a whole number of
  hundred-thousandths that lies within half of one of \<open>v\<close>.  Ratio 1.0 with modifier
  -2.5 gives 0.975 (the double nearest to it).  When the ratio or the modifier is
  \<^verbatim>\<open>null\<close> the result is \<^verbatim>\<open>null\<close>.  The wizard and the standalone step form compute both
  results with the same expressions.
\<close>

theorem C9_legacy_pass_double:
  "(pass1FlowRatio c = Some (Finite r) \<and> pass1Modifier c = Some (Finite m) \<longrightarrow>
      pass1Result c = Some (parseFloat (toFixed
        (js_div (js_mul (Finite r) (js_add (Finite 100) (Finite m))) (Finite 100)) 5)))
   \<and> (pass2FlowRatio c = Some (Finite r) \<and> pass2Modifier c = Some (Finite m) \<longrightarrow>
      pass2Result c = Some (parseFloat (toFixed
        (js_div (js_mul (Finite r) (js_add (Finite 100) (Finite m))) (Finite 100)) 5)))
   \<and> (\<forall>s p v. js_add (Finite 100) (Finite m) = Finite s \<and> js_mul (Finite r) (Finite s) = Finite p
            \<and> js_div (Finite p) (Finite 100) = Finite v \<and> \<bar>v\<bar> < 10 ^ 21
          \<longrightarrow> \<bar>s - (100 + m)\<bar> \<le> rounding_bound (100 + m)
             \<and> \<bar>p - r * s\<bar> \<le> rounding_bound (r * s)
             \<and> \<bar>v - p / 100\<bar> \<le> rounding_bound (p / 100)
             \<and> (\<exists>n :: int. parseFloat (toFixed (Finite v) 5) = round_double (of_int n / 100000)
                   \<and> \<bar>of_int n / 100000 - v\<bar> \<le> 1 / 200000))
   \<and> parseFloat (toFixed
        (js_div (js_mul (Finite 1) (js_add (Finite 100) (Finite (- (5 / 2))))) (Finite 100)) 5)
       = round_double (975 / 1000)
   \<and> (pass1FlowRatio c = None \<or> pass1Modifier c = None \<longrightarrow> pass1Result c = None)
   \<and> (pass2FlowRatio c = None \<or> pass2Modifier c = None \<longrightarrow> pass2Result c = None)"
proof -
  have a: "\<bar>s - (100 + m)\<bar> \<le> rounding_bound (100 + m)
             \<and> \<bar>p - r * s\<bar> \<le> rounding_bound (r * s)
             \<and> \<bar>v - p / 100\<bar> \<le> rounding_bound (p / 100)
             \<and> (\<exists>n :: int. parseFloat (toFixed (Finite v) 5) = round_double (of_int n / 100000)
                   \<and> \<bar>of_int n / 100000 - v\<bar> \<le> 1 / 200000)"
    if s: "js_add (Finite 100) (Finite m) = Finite s" and p: "js_mul (Finite r) (Finite s) = Finite p"
      and v: "js_div (Finite p) (Finite 100) = Finite v" and b: "\<bar>v\<bar> < 10 ^ 21" for s p v
  proof -
    have "\<exists>n :: int. parseFloat (toFixed (Finite v) 5) = round_double (of_int n / 100000)
                   \<and> \<bar>of_int n / 100000 - v\<bar> \<le> 1 / 200000"
      using parseFloat_toFixed [OF b, of 5] by simp
    moreover have "\<bar>v - p / 100\<bar> \<le> rounding_bound (p / 100)"
      using js_div_error [of 100 p v] v by simp
    ultimately show ?thesis using js_add_error [OF s] js_mul_error [OF p] by blast
  qed
  have b: "parseFloat (toFixed
        (js_div (js_mul (Finite 1) (js_add (Finite 100) (Finite (- (5 / 2))))) (Finite 100)) 5)
       = round_double (975 / 1000)"
    by (simp add: double_eval decimal_eval)
  have c1: "pass1FlowRatio c = Some (Finite r) \<and> pass1Modifier c = Some (Finite m) \<longrightarrow>
      pass1Result c = Some (parseFloat (toFixed
        (js_div (js_mul (Finite r) (js_add (Finite 100) (Finite m))) (Finite 100)) 5))"
    by (simp add: pass1Result_def pass_value)
  have c2: "pass2FlowRatio c = Some (Finite r) \<and> pass2Modifier c = Some (Finite m) \<longrightarrow>
      pass2Result c = Some (parseFloat (toFixed
        (js_div (js_mul (Finite r) (js_add (Finite 100) (Finite m))) (Finite 100)) 5))"
    by (simp add: pass2Result_def pass_value)
  have d1: "pass1FlowRatio c = None \<or> pass1Modifier c = None \<longrightarrow> pass1Result c = None"
    by (auto simp: pass1Result_def)
  have d2: "pass2FlowRatio c = None \<or> pass2Modifier c = None \<longrightarrow> pass2Result c = None"
    by (auto simp: pass2Result_def)
  show ?thesis
    using a b c1 c2 d1 d2 by blast
qed

theorem C9_legacy_pass_double_witness:
  "pass1Result
     \<lparr>flowCalcMethod = Legacy, flowCalcPhase = Pass1,
      yoloFlowRatioOld = Some (Finite 1), yoloModifier = None,
      pass1FlowRatio = Some (Finite 1), pass1Modifier = Some (Finite (- (5 / 2))),
      pass2FlowRatio = None, pass2Modifier = None\<rparr> = Some (round_double (975 / 1000))
   \<and> pass2Result
     \<lparr>flowCalcMethod = Legacy, flowCalcPhase = Pass1,
      yoloFlowRatioOld = Some (Finite 1), yoloModifier = None,
      pass1FlowRatio = Some (Finite 1), pass1Modifier = Some (Finite (- (5 / 2))),
      pass2FlowRatio = None, pass2Modifier = None\<rparr> = None
   \<and> js_add (Finite 100) (Finite (- (5 / 2))) = Finite (195 / 2)
   \<and> js_mul (Finite 1) (Finite (195 / 2)) = Finite (195 / 2)
   \<and> js_div (Finite (195 / 2)) (Finite 100) = Finite (8782019273372467 / 9007199254740992)
   \<and> (\<exists>n :: int. parseFloat (toFixed (Finite (8782019273372467 / 9007199254740992)) 5)
                    = round_double (of_int n / 100000)
            \<and> \<bar>of_int n / 100000 - 8782019273372467 / 9007199254740992\<bar> \<le> (1 / 200000 :: rat))"
proof -
  let ?c = "\<lparr>flowCalcMethod = Legacy, flowCalcPhase = Pass1,
      yoloFlowRatioOld = Some (Finite 1), yoloModifier = None,
      pass1FlowRatio = Some (Finite 1), pass1Modifier = Some (Finite (- (5 / 2))),
      pass2FlowRatio = None, pass2Modifier = None\<rparr>"
  note th = C9_legacy_pass_double [of ?c 1 "- (5 / 2)"]
  have s: "js_add (Finite 100) (Finite (- (5 / 2))) = Finite (195 / 2)"
    by (simp add: double_eval)
  have p: "js_mul (Finite 1) (Finite (195 / 2)) = Finite (195 / 2)"
    by (simp add: double_eval)
  have v: "js_div (Finite (195 / 2)) (Finite 100) = Finite (8782019273372467 / 9007199254740992)"
    by (simp add: double_eval)
  have b: "\<bar>8782019273372467 / 9007199254740992\<bar> < (10 :: rat) ^ 21" by simp
  have i: "pass1FlowRatio ?c = Some (Finite 1) \<and> pass1Modifier ?c = Some (Finite (- (5 / 2)))"
    by simp
  have n: "pass2FlowRatio ?c = None \<or> pass2Modifier ?c = None" by simp
  from th i have "pass1Result ?c = Some (parseFloat (toFixed
        (js_div (js_mul (Finite 1) (js_add (Finite 100) (Finite (- (5 / 2))))) (Finite 100)) 5))"
    by blast
  moreover from th have "parseFloat (toFixed
        (js_div (js_mul (Finite 1) (js_add (Finite 100) (Finite (- (5 / 2))))) (Finite 100)) 5)
       = round_double (975 / 1000)"
    by blast
  ultimately have 1: "pass1Result ?c = Some (round_double (975 / 1000))" by simp
  from th n have 2: "pass2Result ?c = None" by blast
  from th s p v b have 3: "\<exists>n :: int.
      parseFloat (toFixed (Finite (8782019273372467 / 9007199254740992)) 5)
        = round_double (of_int n / 100000)
      \<and> \<bar>of_int n / 100000 - 8782019273372467 / 9007199254740992\<bar> \<le> (1 / 200000 :: rat)"
    by blast
  show ?thesis using 1 2 3 s p v by blast
qed

text \<open>The pass formula at ratio 0.975 with modifier 1.5 and at ratio 0.54052 with
  modifier 12.5, the ratios as doubles: 0.98962 and 0.60808, where the values on the
  decimals round to 0.98963 and 0.60809.\<close>

lemma legacy_pass_examples:
  "round_double (975 / 1000) = Finite (8782019273372467 / 9007199254740992)
   \<and> round_double (54052 / 100000) = Finite (4868571341172601 / 9007199254740992)
   \<and> parseFloat (toFixed (js_div (js_mul (Finite (8782019273372467 / 9007199254740992))
        (js_add (Finite 100) (Finite (3 / 2)))) (Finite 100)) 5) = round_double (98962 / 100000)
   \<and> parseFloat (toFixed (js_div (js_mul (Finite (4868571341172601 / 9007199254740992))
        (js_add (Finite 100) (Finite (25 / 2)))) (Finite 100)) 5) = round_double (60808 / 100000)"
proof -
  have 1: "round_double (975 / 1000) = Finite (8782019273372467 / 9007199254740992)"
    by (simp add: double_eval)
  have 2: "round_double (54052 / 100000) = Finite (4868571341172601 / 9007199254740992)"
    by (simp add: double_eval)
  have 3: "parseFloat (toFixed (js_div (js_mul (Finite (8782019273372467 / 9007199254740992))
        (js_add (Finite 100) (Finite (3 / 2)))) (Finite 100)) 5) = round_double (98962 / 100000)"
    by (simp add: double_eval decimal_eval)
  have 4: "parseFloat (toFixed (js_div (js_mul (Finite (4868571341172601 / 9007199254740992))
        (js_add (Finite 100) (Finite (25 / 2)))) (Finite 100)) 5) = round_double (60808 / 100000)"
    by (simp add: double_eval decimal_eval)
  show ?thesis using 1 2 3 4 by blast
qed

section \<open>VFA artifact speeds\<close>

lemma Math_min_eq: "Math_min x xs = Min (set (x # xs))"
proof (induction xs arbitrary: x)
  case Nil
  then show ?case by simp
next
  case (Cons y ys)
  have "Min (set (x # y # ys)) = Min (insert (min x y) (set ys))"
    by (cases "set ys = {}") (simp_all add: min.assoc)
  then show ?case using Cons.IH [of "min x y"] by simp
qed

lemma Math_max_eq: "Math_max x xs = Max (set (x # xs))"
proof (induction xs arbitrary: x)
  case Nil
  then show ?case by simp
next
  case (Cons y ys)
  have "Max (set (x # y # ys)) = Max (insert (max x y) (set ys))"
    by (cases "set ys = {}") (simp_all add: max.assoc)
  then show ?case using Cons.IH [of "max x y"] by simp
qed

lemma filter_index_from:
  "map fst (filter (\<lambda>(x, i). i \<noteq> idx) (zip xs [k ..< k + length xs]))
     = (if idx < k then xs else take (idx - k) xs @ drop (Suc (idx - k)) xs)"
proof (induction xs arbitrary: k)
  case Nil
  then show ?case by simp
next
  case (Cons x xs)
  have upt: "[k ..< Suc (k + length xs)] = k # [Suc k ..< Suc (k + length xs)]"
    by (rule upt_conv_Cons) simp
  show ?case
  proof (cases "idx < Suc k")
    case True
    then show ?thesis
      using Cons.IH [of "Suc k"] by (auto simp: upt simp del: upt_Suc)
  next
    case False
    then have "idx - k = Suc (idx - Suc k)" by simp
    then show ?thesis
      using Cons.IH [of "Suc k"] False by (simp add: upt del: upt_Suc)
  qed
qed

text \<open>Removal deletes the element at the position and nothing else.\<close>

lemma filter_index_eq: "filter_index idx xs = take idx xs @ drop (Suc idx) xs"
  using filter_index_from [of idx xs 0] by (simp add: filter_index_def)

lemma vfa_effect_nonempty:
  "vfa_effect Vfa (x # xs) result =
     Some ((or_empty result)(''min_avoidance_speed'' \<mapsto> JNum (Min (set (x # xs))),
                             ''max_avoidance_speed'' \<mapsto> JNum (Max (set (x # xs)))))"
  by (simp add: vfa_effect_def Math_min_eq Math_max_eq del: set_simps)

lemma vfa_effect_empty:
  "vfa_effect Vfa [] result =
     Some ((or_empty result)(''min_avoidance_speed'' \<mapsto> JNull,
                             ''max_avoidance_speed'' \<mapsto> JNull))"
  by (simp add: vfa_effect_def)

lemma setArtifactSpeeds_spec:
  "\<exists>r'. vfa_result (setArtifactSpeeds Vfa xs s) = Some r'
        \<and> artifactSpeeds (setArtifactSpeeds Vfa xs s) = xs
        \<and> (if xs = []
            then r' ''min_avoidance_speed'' = Some JNull \<and>
                 r' ''max_avoidance_speed'' = Some JNull
            else r' ''min_avoidance_speed'' = Some (JNum (Min (set xs))) \<and>
                 r' ''max_avoidance_speed'' = Some (JNum (Max (set xs))))
        \<and> (\<forall>k. k \<noteq> ''min_avoidance_speed'' \<and> k \<noteq> ''max_avoidance_speed'' \<longrightarrow>
               r' k = or_empty (vfa_result s) k)"
proof (cases xs)
  case Nil
  then show ?thesis
    by (simp add: setArtifactSpeeds_def vfa_effect_empty)
next
  case (Cons y ys)
  then show ?thesis
    by (simp add: setArtifactSpeeds_def vfa_effect_nonempty del: set_simps)
qed

text \<open>Removing the only speed clears both outputs.\<close>

lemma remove_last_clears:
  "vfa_result (removeArtifactSpeed Vfa 0
      \<lparr>artifactSpeeds = [40], newArtifactSpeed = None,
       vfa_result = Some [''min_avoidance_speed'' \<mapsto> JNum 40,
             ''max_avoidance_speed'' \<mapsto> JNum 40]\<rparr>)
     = Some [''min_avoidance_speed'' \<mapsto> JNull, ''max_avoidance_speed'' \<mapsto> JNull]"
  by (simp add: removeArtifactSpeed_def setArtifactSpeeds_def vfa_effect_def or_empty_def
      filter_index_eq)

text \<open>
  Claim C8.  On the VFA step, let \<open>s'\<close> be the state after a mutation of the
  artifact-speed list: removing the entry at a position, adding the pending numeric
  entry, or the reset to the empty list.  Then the result mapping exists and, if the
  list is now non-empty, \<^verbatim>\<open>min_avoidance_speed\<close> is the least and
  \<^verbatim>\<open>max_avoidance_speed\<close> the greatest element of the list; if the list is now empty
  both are \<^verbatim>\<open>null\<close>; and every other key of the result mapping reads as it did before
  the mutation.  The standalone step form runs the same effect.
\<close>

theorem C8_vfa_min_max:
  assumes "s' = removeArtifactSpeed Vfa idx s
         \<or> (newArtifactSpeed s = Some (Num n) \<and> s' = addArtifactSpeed Vfa s)
         \<or> s' = setArtifactSpeeds Vfa [] s"
  shows "\<exists>r'. vfa_result s' = Some r'
        \<and> (artifactSpeeds s' \<noteq> [] \<longrightarrow>
             r' ''min_avoidance_speed'' = Some (JNum (Min (set (artifactSpeeds s')))) \<and>
             r' ''max_avoidance_speed'' = Some (JNum (Max (set (artifactSpeeds s')))))
        \<and> (artifactSpeeds s' = [] \<longrightarrow>
             r' ''min_avoidance_speed'' = Some JNull \<and> r' ''max_avoidance_speed'' = Some JNull)
        \<and> (\<forall>k. k \<noteq> ''min_avoidance_speed'' \<and> k \<noteq> ''max_avoidance_speed'' \<longrightarrow>
               r' k = or_empty (vfa_result s) k)
        \<and> drawer_vfa_effect (Some Vfa) (artifactSpeeds s') (vfa_result s)
            = vfa_effect Vfa (artifactSpeeds s') (vfa_result s)"
proof -
  obtain xs where s': "vfa_result s' = vfa_result (setArtifactSpeeds Vfa xs s)"
      "artifactSpeeds s' = artifactSpeeds (setArtifactSpeeds Vfa xs s)"
    using assms by (auto simp: removeArtifactSpeed_def addArtifactSpeed_def)
  from setArtifactSpeeds_spec [of xs s] obtain r' where
    r': "vfa_result (setArtifactSpeeds Vfa xs s) = Some r'"
      "artifactSpeeds (setArtifactSpeeds Vfa xs s) = xs"
      "if xs = []
       then r' ''min_avoidance_speed'' = Some JNull \<and> r' ''max_avoidance_speed'' = Some JNull
       else r' ''min_avoidance_speed'' = Some (JNum (Min (set xs))) \<and>
            r' ''max_avoidance_speed'' = Some (JNum (Max (set xs)))"
      "\<forall>k. k \<noteq> ''min_avoidance_speed'' \<and> k \<noteq> ''max_avoidance_speed'' \<longrightarrow>
               r' k = or_empty (vfa_result s) k"
    by blast
  have "drawer_vfa_effect (Some Vfa) (artifactSpeeds s') (vfa_result s)
            = vfa_effect Vfa (artifactSpeeds s') (vfa_result s)"
    by (simp add: drawer_vfa_effect_def)
  then show ?thesis
    using s' r' by (auto split: if_splits)
qed

theorem C8_vfa_min_max_witness:
  "vfa_result (addArtifactSpeed Vfa
      \<lparr>artifactSpeeds = [40, 120], newArtifactSpeed = Some (Num 80),
       vfa_result = Some [''extra'' \<mapsto> JStr ''kept'']\<rparr>)
     = Some [''extra'' \<mapsto> JStr ''kept'', ''min_avoidance_speed'' \<mapsto> JNum 40,
             ''max_avoidance_speed'' \<mapsto> JNum 120]
   \<and> artifactSpeeds (addArtifactSpeed Vfa
      \<lparr>artifactSpeeds = [40, 120], newArtifactSpeed = Some (Num 80),
       vfa_result = Some [''extra'' \<mapsto> JStr ''kept'']\<rparr>) = [40, 80, 120]"
  using C8_vfa_min_max [of "addArtifactSpeed Vfa
      \<lparr>artifactSpeeds = [40, 120], newArtifactSpeed = Some (Num 80),
       vfa_result = Some [''extra'' \<mapsto> JStr ''kept'']\<rparr>" 0
      "\<lparr>artifactSpeeds = [40, 120], newArtifactSpeed = Some (Num 80),
       vfa_result = Some [''extra'' \<mapsto> JStr ''kept'']\<rparr>" 80]
  by (simp add: addArtifactSpeed_def setArtifactSpeeds_def vfa_effect_def or_empty_def)

section \<open>Resume on open\<close>

lemma order_UNIV: "set WIZARD_STEP_ORDER = UNIV"
proof -
  have "t \<in> set WIZARD_STEP_ORDER" for t
    by (cases t) (simp_all add: WIZARD_STEP_ORDER_def)
  then show ?thesis by blast
qed

lemma findIndex_from_none:
  "(\<forall>x \<in> set xs. \<not> P x) \<Longrightarrow> findIndex_from P xs i = - 1"
  by (induction xs arbitrary: i) simp_all

lemma findIndex_from_some:
  "\<exists>x \<in> set xs. P x \<Longrightarrow> 0 \<le> i \<Longrightarrow>
     i \<le> findIndex_from P xs i \<and> nat (findIndex_from P xs i - i) < length xs
     \<and> P (xs ! nat (findIndex_from P xs i - i))
     \<and> (\<forall>j < nat (findIndex_from P xs i - i). \<not> P (xs ! j))"
proof (induction xs arbitrary: i)
  case Nil
  then show ?case by simp
next
  case (Cons x xs)
  show ?case
  proof (cases "P x")
    case True
    then show ?thesis by simp
  next
    case False
    then have ex: "\<exists>x \<in> set xs. P x" using Cons.prems by auto
    have i1: "0 \<le> i + 1" using Cons.prems by simp
    note IH = Cons.IH [OF ex i1]
    let ?r = "findIndex_from P xs (i + 1)"
    have eq: "nat (?r - i) = Suc (nat (?r - (i + 1)))" using IH by linarith
    have "\<forall>j < nat (?r - i). \<not> P ((x # xs) ! j)"
    proof (intro allI impI)
      fix j assume "j < nat (?r - i)"
      then show "\<not> P ((x # xs) ! j)" using IH False eq by (cases j) auto
    qed
    then show ?thesis using IH False eq by simp
  qed
qed

lemma open_effect_fields:
  "doneTypes (open_effect True s w) = step_type ` set (steps s)"
  "savedValues (open_effect True s w) = seed_savedValues (steps s) Map.empty"
  by (simp_all add: open_effect_def Let_def)

lemma open_effect_idx:
  "currentIdx (open_effect True s w) =
     (let fp = findIndex (\<lambda>st. st \<notin> step_type ` set (steps s)) WIZARD_STEP_ORDER
      in if fp \<ge> 0 then nat fp else 0)"
  by (simp add: open_effect_def Let_def)

lemma open_idx_pending:
  assumes "t \<notin> step_type ` set (steps s)"
  shows "currentIdx (open_effect True s w) < length WIZARD_STEP_ORDER
       \<and> WIZARD_STEP_ORDER ! currentIdx (open_effect True s w) \<notin> step_type ` set (steps s)
       \<and> (\<forall>j < currentIdx (open_effect True s w).
             WIZARD_STEP_ORDER ! j \<in> step_type ` set (steps s))"
proof -
  let ?P = "\<lambda>st. st \<notin> step_type ` set (steps s)"
  have "\<exists>x \<in> set WIZARD_STEP_ORDER. ?P x" using assms order_UNIV by auto
  from findIndex_from_some [of WIZARD_STEP_ORDER ?P 0, OF this]
  show ?thesis by (simp add: open_effect_idx findIndex_def Let_def)
qed

lemma open_idx_all_done:
  assumes "\<forall>t. t \<in> step_type ` set (steps s)"
  shows "currentIdx (open_effect True s w) = 0"
proof -
  have "findIndex_from (\<lambda>st. st \<notin> step_type ` set (steps s)) WIZARD_STEP_ORDER 0 = - 1"
    by (rule findIndex_from_none) (use assms in simp)
  then show ?thesis by (simp add: open_effect_idx findIndex_def)
qed

lemma resume_example_idx: "currentIdx (open_effect True resume_example w) = 1"
  by (simp add: open_effect_def resume_example_def stored_step_def save_values_def
      findIndex_def WIZARD_STEP_ORDER_def Let_def)

text \<open>
  Claim C5, the example as the claim states it.  A session with persisted temperature and
  flow-rate steps does not open at pressure advance: volumetric speed comes second in
  the canonical order and is not done, so the wizard opens there.
\<close>

theorem C5_resume_counterexample:
  "step_at (currentIdx (open_effect True resume_example (initial_wizard resume_example)))
     = Some Volumetric_speed
   \<and> step_at (currentIdx (open_effect True resume_example (initial_wizard resume_example)))
     \<noteq> Some Pressure_advance
   \<and> step_type ` set (steps resume_example) = {Temperature, Flow_rate}"
  by (simp add: resume_example_idx step_at_def WIZARD_STEP_ORDER_def)
     (simp add: resume_example_def stored_step_def save_values_def Let_def)

text \<open>
  Claim C5, amended.  Opening the wizard recomputes the done-set as the step types of
  the session's persisted steps.  If some step type is not in it, the current index
  points into the canonical nine-step order at a step type that is not done, and every
  step type before it is done; if every step type is done the current index is 0.  A
  session with persisted temperature and flow-rate steps opens at volumetric speed
  (index 1), not at index 0.
\<close>

theorem C5_resume_first_pending:
  "doneTypes (open_effect True s w) = step_type ` set (steps s)
   \<and> ((\<exists>t. t \<notin> step_type ` set (steps s)) \<longrightarrow>
        currentIdx (open_effect True s w) < length WIZARD_STEP_ORDER
        \<and> WIZARD_STEP_ORDER ! currentIdx (open_effect True s w) \<notin> step_type ` set (steps s)
        \<and> (\<forall>j < currentIdx (open_effect True s w).
              WIZARD_STEP_ORDER ! j \<in> step_type ` set (steps s)))
   \<and> ((\<forall>t. t \<in> step_type ` set (steps s)) \<longrightarrow> currentIdx (open_effect True s w) = 0)
   \<and> length WIZARD_STEP_ORDER = 9
   \<and> step_at (currentIdx (open_effect True resume_example w)) = Some Volumetric_speed
   \<and> currentIdx (open_effect True resume_example w) = 1"
  using open_idx_pending [of _ s w] open_idx_all_done [of s w] open_effect_fields(1) [of s w]
    resume_example_idx [of w]
  by (auto simp: step_at_def WIZARD_STEP_ORDER_def)

theorem C5_resume_first_pending_witness:
  "currentIdx (open_effect True resume_example (initial_wizard resume_example)) < 9
   \<and> WIZARD_STEP_ORDER ! currentIdx (open_effect True resume_example (initial_wizard resume_example))
       \<notin> step_type ` set (steps resume_example)
   \<and> Volumetric_speed \<notin> step_type ` set (steps resume_example)"
proof -
  have v: "Volumetric_speed \<notin> step_type ` set (steps resume_example)"
    by (simp add: resume_example_def stored_step_def save_values_def Let_def)
  then have ex: "\<exists>t. t \<notin> step_type ` set (steps resume_example)" by blast
  note th = C5_resume_first_pending [of resume_example "initial_wizard resume_example"]
  from th ex have a: "currentIdx (open_effect True resume_example (initial_wizard resume_example))
      < length WIZARD_STEP_ORDER" by blast
  from th have b: "length WIZARD_STEP_ORDER = 9" by blast
  from th ex have c: "WIZARD_STEP_ORDER !
      currentIdx (open_effect True resume_example (initial_wizard resume_example))
       \<notin> step_type ` set (steps resume_example)" by blast
  from a b have "currentIdx (open_effect True resume_example (initial_wizard resume_example)) < 9"
    by simp
  then show ?thesis using c v by blast
qed

section \<open>Session status under the wizard actions\<close>

lemma step_at_last: "isLast w \<Longrightarrow> step_at (currentIdx w) = Some Vfa"
  by (simp add: isLast_def step_at_def WIZARD_STEP_ORDER_def)

lemma input_shaping_not_last: "step_at (currentIdx w) = Some Input_shaping \<Longrightarrow> \<not> isLast w"
  by (auto simp: isLast_def step_at_def WIZARD_STEP_ORDER_def split: if_splits)

lemma session_navigate [simp]: "session (navigate i wd) = session wd"
  by (simp add: navigate_def)

lemma session_add_done [simp]: "session (add_done t wd) = session wd"
  by (simp add: add_done_def)

lemma status_create [simp]: "status (backend_create_step v s) = status s"
  by (simp add: backend_create_step_def)

lemma status_markComplete:
  "status (session (markComplete u wd)) = (if u then Complete else status (session wd))"
  by (simp add: markComplete_def backend_update_status_def)

lemma status_handleSkip:
  "status (session (handleSkip c u wd)) =
     (if isLast (wizard wd) \<and> c \<and> u then Complete else status (session wd))"
  by (simp add: handleSkip_def status_markComplete)

lemma status_handleSaveAndContinue:
  "status (session (handleSaveAndContinue c u wd)) =
     (if isLast (wizard wd) \<and> c \<and> u then Complete else status (session wd))"
  by (auto simp: handleSaveAndContinue_def saveCurrentStep_def createStep_def status_markComplete
      step_at_last split: option.splits)

lemma status_handleSaveAsSkipped:
  "status (session (handleSaveAsSkipped c u wd)) =
     (if isLast (wizard wd) \<and> c \<and> u then Complete else status (session wd))"
  by (auto simp: handleSaveAsSkipped_def createStep_def status_markComplete Let_def
      step_at_last split: option.splits)

lemma status_wizard_step:
  "status (session (wizard_step a wd)) =
     (if isLast (wizard wd) \<and> (a = SaveAndContinue True True \<or> a = Skip True True)
      then Complete else status (session wd))"
proof (cases a)
  case (SkipNotApplicable c u)
  then show ?thesis
    using input_shaping_not_last [of "wizard wd"]
    by (auto simp: status_handleSaveAsSkipped)
qed (auto simp: status_handleSkip status_handleSaveAndContinue)

lemma status_run:
  "status (session (fold wizard_step acts wd)) = status (session wd)
   \<or> status (session (fold wizard_step acts wd)) = Complete"
proof (induction acts arbitrary: wd)
  case Nil
  then show ?case by simp
next
  case (Cons a acts)
  have "status (session (wizard_step a wd)) = status (session wd)
      \<or> status (session (wizard_step a wd)) = Complete"
    by (simp add: status_wizard_step del: wizard_step.simps)
  then show ?case using Cons.IH [of "wizard_step a wd"] by auto
qed

text \<open>
  Claim C6.  On the last step, Save and Continue whose create and update requests both
  succeed leaves the session with status complete, and so does the confirmed
  skip-to-finish.  Whatever the wizard action (sidebar click, back, skip, save, skip as
  not applicable on input shaping, form editing, close), if the session status after it
  differs from the status before, then the wizard was on the last step, the action was
  that successful save or that confirmed skip-to-finish, and the new status is complete.
  Closing the wizard and editing the form leave the stored session as it was.  Hence
  after any sequence of wizard actions the status is the one the session had, or
  complete.
\<close>

theorem C6_session_completion:
  "(isLast (wizard wd) \<longrightarrow>
      status (session (wizard_step (SaveAndContinue True True) wd)) = Complete
      \<and> status (session (wizard_step (Skip True True) wd)) = Complete)
   \<and> (status (session (wizard_step a wd)) \<noteq> status (session wd) \<longrightarrow>
        isLast (wizard wd) \<and> (a = SaveAndContinue True True \<or> a = Skip True True)
        \<and> status (session (wizard_step a wd)) = Complete)
   \<and> session (wizard_step Close wd) = session wd
   \<and> (\<forall>vals. session (wizard_step (EditForm vals) wd) = session wd)
   \<and> (status (session (fold wizard_step acts wd)) = status (session wd)
        \<or> status (session (fold wizard_step acts wd)) = Complete)"
proof -
  have "session (wizard_step Close wd) = session wd"
    and "\<forall>vals. session (wizard_step (EditForm vals) wd) = session wd"
    by simp_all
  then show ?thesis
    using status_run [of acts wd]
    by (simp add: status_wizard_step del: wizard_step.simps)
qed

theorem C6_session_completion_witness:
  "isLast (wizard last_step_example)
   \<and> status (session last_step_example) = In_progress
   \<and> status (session (wizard_step (SaveAndContinue True True) last_step_example)) = Complete
   \<and> status (session (wizard_step Close last_step_example)) = In_progress"
proof -
  have l: "isLast (wizard last_step_example)"
    by (simp add: last_step_example_def navigateTo_def Let_def isLast_def WIZARD_STEP_ORDER_def)
  have s: "status (session last_step_example) = In_progress"
    by (simp add: last_step_example_def resume_example_def)
  show ?thesis
    using C6_session_completion [of last_step_example Close] l s by simp
qed


section \<open>Skipped steps\<close>

lemma skipped_once_session:
  "session skipped_once =
     \<lparr>sid = 7, filament_id = 3, status = In_progress,
      steps = [stored_step 1 7 (skipped_values Input_shaping)]\<rparr>"
  by (simp add: skipped_once_def open_wizard_def empty_session_def open_effect_def
      initial_wizard_def findIndex_def WIZARD_STEP_ORDER_def Let_def navigate_def navigateTo_def
      step_at_def handleSaveAsSkipped_def createStep_def add_done_def isLast_def
      backend_create_step_def fresh_step_id_def restore_form_def)

lemma revisit_form:
  "form (wizard (wizard_step (SidebarClick 7) (open_wizard (session skipped_once))))
     = \<lparr>f_inputs = Some Map.empty, f_result = Some skipped_sentinel,
        f_notes = None, f_confidence = None\<rparr>"
  by (simp add: skipped_once_session open_wizard_def open_effect_def
      initial_wizard_def findIndex_def WIZARD_STEP_ORDER_def Let_def navigate_def navigateTo_def
      step_at_def restore_form_def stored_step_def skipped_values_def or_empty_def
      setFieldsValue_def resetFields_def merge_obj_def or_old_def)

lemma steps_markComplete [simp]: "steps (session (markComplete u wd)) = steps (session wd)"
  by (simp add: markComplete_def backend_update_status_def)

lemma save_appends:
  assumes "step_at (currentIdx (wizard wd)) = Some t"
  shows "steps (session (handleSaveAndContinue True u wd)) =
           steps (session wd) @
             [stored_step (fresh_step_id (session wd)) (sid (session wd))
                (save_values t (form (wizard wd)))]"
  using assms
  by (simp add: handleSaveAndContinue_def saveCurrentStep_def createStep_def
      backend_create_step_def)

lemma revisit_idx:
  "currentIdx (wizard (wizard_step (SidebarClick 7) wd)) = 7"
  by (simp add: WIZARD_STEP_ORDER_def navigate_def navigateTo_def Let_def)

lemma revisit_session:
  "session (wizard_step (SidebarClick 7) (open_wizard s)) = s"
  by (simp add: open_wizard_def)

lemma revisited_steps:
  "steps (session skipped_revisited) =
     [stored_step 1 7 (skipped_values Input_shaping),
      \<lparr>step_id = 2, session_id = 7, step_type = Input_shaping,
       inputs = Some Map.empty, outputs = Some skipped_sentinel,
       selected_values = Some skipped_sentinel, step_notes = None, confidence = None\<rparr>]"
proof -
  let ?wr = "wizard_step (SidebarClick 7) (open_wizard (session skipped_once))"
  have at: "step_at (currentIdx (wizard ?wr)) = Some Input_shaping"
    by (simp only: revisit_idx) (simp add: step_at_def WIZARD_STEP_ORDER_def)
  have "steps (session skipped_revisited) =
          steps (session ?wr) @
             [stored_step (fresh_step_id (session ?wr)) (sid (session ?wr))
                (save_values Input_shaping (form (wizard ?wr)))]"
    unfolding skipped_revisited_def wizard_step.simps(4) by (rule save_appends [OF at])
  then show ?thesis
    by (simp only: revisit_form revisit_session)
       (simp add: skipped_once_session fresh_step_id_def stored_step_def save_values_def Let_def)
qed

text \<open>
  Claim C1 at the input that breaks it.  After a skip as not applicable the stored step
  has the sentinel as outputs and no selected values.  When the wizard is opened again
  on that session, the form of the input-shaping step is seeded with the sentinel as its
  result; Save and Continue then stores a second input-shaping step whose outputs and
  whose selected values both are the sentinel, so a step with sentinel outputs has a
  non-empty selected-values mapping.  Both steps are still tagged Skipped in the list.
\<close>

theorem C1_revisited_skip_copies_sentinel:
  "steps (session skipped_revisited) =
     [stored_step 1 7 (skipped_values Input_shaping),
      \<lparr>step_id = 2, session_id = 7, step_type = Input_shaping,
       inputs = Some Map.empty, outputs = Some skipped_sentinel,
       selected_values = Some skipped_sentinel, step_notes = None, confidence = None\<rparr>]
   \<and> nonempty_obj (Some skipped_sentinel)
   \<and> v_selected_values (skipped_values Input_shaping) = None
   \<and> map step_tags (steps (session skipped_revisited)) = [[Skipped], [Skipped]]"
proof -
  have "steps (session skipped_revisited) =
     [stored_step 1 7 (skipped_values Input_shaping),
      \<lparr>step_id = 2, session_id = 7, step_type = Input_shaping,
       inputs = Some Map.empty, outputs = Some skipped_sentinel,
       selected_values = Some skipped_sentinel, step_notes = None, confidence = None\<rparr>]"
    by (rule revisited_steps)
  moreover have "nonempty_obj (Some skipped_sentinel)"
    by (simp add: nonempty_obj_def skipped_sentinel_def)
  moreover have "v_selected_values (skipped_values Input_shaping) = None"
    by (simp add: skipped_values_def)
  moreover have "step_tags (stored_step 1 7 (skipped_values Input_shaping)) = [Skipped]"
    by (simp add: step_tags_def isSkipped_def hasRecommended_def isIncomplete_def
        stored_step_def skipped_values_def skipped_sentinel_def)
  moreover have "step_tags
      \<lparr>step_id = 2, session_id = 7, step_type = Input_shaping,
       inputs = Some Map.empty, outputs = Some skipped_sentinel,
       selected_values = Some skipped_sentinel, step_notes = None, confidence = None\<rparr>
       = [Skipped]"
    by (simp add: step_tags_def isSkipped_def hasRecommended_def isIncomplete_def
        skipped_sentinel_def)
  ultimately show ?thesis by simp
qed

text \<open>What does hold: a step with the sentinel as outputs is tagged Skipped and nothing
  else, and both save paths post the result mapping as outputs and as selected values.\<close>

lemma skipped_tag: "isSkipped st \<Longrightarrow> step_tags st = [Skipped]"
  by (simp add: step_tags_def hasRecommended_def isIncomplete_def)

lemma sentinel_isSkipped: "outputs st = Some skipped_sentinel \<Longrightarrow> isSkipped st"
  by (simp add: isSkipped_def skipped_sentinel_def)

lemma drawer_payload_same:
  "v_outputs (drawer_payload vals) = v_selected_values (drawer_payload vals)"
  by (simp add: drawer_payload_def)

lemma save_values_same:
  "v_outputs (save_values t vals) = v_selected_values (save_values t vals)"
  by (simp add: save_values_def Let_def)


section \<open>The done-set\<close>

lemma types_create:
  "step_type ` set (steps (backend_create_step v s)) = insert (v_step_type v) (step_type ` set (steps s))"
  by (auto simp: backend_create_step_def stored_step_def)

lemma doneTypes_navigate [simp]: "doneTypes (wizard (navigate i wd)) = doneTypes (wizard wd)"
  by (simp add: navigate_def navigateTo_def Let_def)

lemma wizard_markComplete [simp]: "wizard (markComplete u wd) = wizard wd"
  by (simp add: markComplete_def)

lemma doneTypes_add_done [simp]:
  "doneTypes (wizard (add_done t wd)) = insert t (doneTypes (wizard wd))"
  by (simp add: add_done_def)

lemma steps_navigate [simp]: "steps (session (navigate i wd)) = steps (session wd)"
  by (simp add: navigate_def)

lemma done_matches_open: "done_matches (open_wizard s)"
  by (simp add: done_matches_def open_wizard_def open_effect_def Let_def)

lemma done_matches_step:
  assumes "done_matches wd"
  shows "done_matches (wizard_step a wd)"
proof (cases a)
  case (SidebarClick i)
  then show ?thesis using assms by (simp add: done_matches_def)
next
  case Back
  then show ?thesis using assms by (simp add: done_matches_def)
next
  case (Skip c u)
  then show ?thesis using assms by (simp add: done_matches_def handleSkip_def)
next
  case (SaveAndContinue c u)
  then show ?thesis using assms
    by (auto simp: done_matches_def handleSaveAndContinue_def saveCurrentStep_def createStep_def
        types_create save_values_def Let_def split: option.splits)
next
  case (SkipNotApplicable c u)
  then show ?thesis using assms
    by (auto simp: done_matches_def handleSaveAsSkipped_def createStep_def
        types_create skipped_values_def Let_def split: option.splits)
next
  case (EditForm vals)
  then show ?thesis using assms by (simp add: done_matches_def)
next
  case Close
  then show ?thesis using assms by (simp add: done_matches_def)
qed

lemma open_done_types:
  "doneTypes (wizard (open_wizard s)) = step_type ` set (steps s)"
  by (simp add: open_wizard_def open_effect_def Let_def)

lemma open_current_pending:
  assumes "t \<notin> step_type ` set (steps s)"
  shows "\<exists>u. step_at (currentIdx (wizard (open_wizard s))) = Some u
             \<and> u \<notin> step_type ` set (steps s)"
proof -
  let ?P = "\<lambda>st. st \<notin> step_type ` set (steps s)"
  have "set WIZARD_STEP_ORDER = UNIV" by (rule order_UNIV)
  then have "\<exists>x \<in> set WIZARD_STEP_ORDER. ?P x" using assms by auto
  from findIndex_from_some [of WIZARD_STEP_ORDER ?P 0, OF this]
  show ?thesis
    by (simp add: open_wizard_def open_effect_def findIndex_def Let_def step_at_def)
qed

text \<open>
  Claim C10.  After the wizard opens, a step type is in the done-set exactly when the
  session has a persisted step of that type; nothing about the step (skipped, completed
  or incomplete) is looked at.  So for any persisted step, at the sidebar entry \<open>idx\<close>
  of its type: the entry counts as done; unless every step type is done, the wizard does
  not open on it, and the entry shows the done check.  In any wizard state the entry
  shows the check exactly when its type is in the done-set and it is not the current
  step.  Every wizard action keeps the done-set equal to the step types stored for the
  session.
\<close>

theorem C10_done_set_membership:
  assumes "st \<in> set (steps s)" and "step_at idx = Some (step_type st)"
  shows "(\<forall>t. t \<in> doneTypes (wizard (open_wizard s)) \<longleftrightarrow> (\<exists>x \<in> set (steps s). step_type x = t))
       \<and> sidebar_isDone (wizard (open_wizard s)) (step_type st)
       \<and> ((\<exists>t. t \<notin> step_type ` set (steps s)) \<longrightarrow>
            currentIdx (wizard (open_wizard s)) \<noteq> idx
            \<and> sidebar_shows_check (wizard (open_wizard s)) idx)
       \<and> (sidebar_shows_check w idx \<longleftrightarrow> step_type st \<in> doneTypes w \<and> idx \<noteq> currentIdx w)
       \<and> (doneTypes (wizard wd) = step_type ` set (steps (session wd)) \<longrightarrow>
            doneTypes (wizard (wizard_step a wd))
              = step_type ` set (steps (session (wizard_step a wd))))"
proof -
  have d: "doneTypes (wizard (open_wizard s)) = step_type ` set (steps s)"
    by (rule open_done_types)
  have 1: "\<forall>t. t \<in> doneTypes (wizard (open_wizard s)) \<longleftrightarrow> (\<exists>x \<in> set (steps s). step_type x = t)"
    unfolding d by auto
  have 2: "sidebar_isDone (wizard (open_wizard s)) (step_type st)"
    using assms(1) by (simp add: sidebar_isDone_def d)
  have 4: "sidebar_shows_check w idx \<longleftrightarrow> step_type st \<in> doneTypes w \<and> idx \<noteq> currentIdx w" for w
    using assms(2) by (simp add: sidebar_shows_check_def sidebar_isDone_def)
  have 3: "currentIdx (wizard (open_wizard s)) \<noteq> idx
            \<and> sidebar_shows_check (wizard (open_wizard s)) idx"
    if "\<exists>t. t \<notin> step_type ` set (steps s)"
  proof -
    from that obtain t where "t \<notin> step_type ` set (steps s)" by blast
    from open_current_pending [OF this] obtain u where
      u: "step_at (currentIdx (wizard (open_wizard s))) = Some u" "u \<notin> step_type ` set (steps s)"
      by blast
    have "currentIdx (wizard (open_wizard s)) \<noteq> idx"
    proof
      assume "currentIdx (wizard (open_wizard s)) = idx"
      then have "u = step_type st" using u(1) assms(2) by simp
      then show False using u(2) assms(1) by blast
    qed
    then show ?thesis using 4 [of "wizard (open_wizard s)"] assms(1) d by auto
  qed
  have 5: "doneTypes (wizard wd) = step_type ` set (steps (session wd)) \<longrightarrow>
            doneTypes (wizard (wizard_step a wd))
              = step_type ` set (steps (session (wizard_step a wd)))"
    using done_matches_step [of wd a] by (simp add: done_matches_def)
  show ?thesis using 1 2 3 4 5 by blast
qed

lemma incomplete_example_step:
  "steps incomplete_example =
     [\<lparr>step_id = 1, session_id = 9, step_type = Temperature, inputs = None, outputs = None,
       selected_values = None, step_notes = None, confidence = None\<rparr>]"
  by (simp add: incomplete_example_def stored_step_def save_values_def resetFields_def Let_def)

theorem C10_done_set_membership_witness:
  "isIncomplete (hd (steps incomplete_example))
   \<and> Temperature \<in> doneTypes (wizard (open_wizard incomplete_example))
   \<and> currentIdx (wizard (open_wizard incomplete_example)) \<noteq> 0
   \<and> sidebar_shows_check (wizard (open_wizard incomplete_example)) 0"
proof -
  have i: "isIncomplete (hd (steps incomplete_example))"
    by (simp add: incomplete_example_step isIncomplete_def isSkipped_def hasRecommended_def
        nonempty_obj_def)
  have m: "hd (steps incomplete_example) \<in> set (steps incomplete_example)"
    by (simp add: incomplete_example_step)
  have a: "step_at 0 = Some (step_type (hd (steps incomplete_example)))"
    by (simp add: incomplete_example_step step_at_def WIZARD_STEP_ORDER_def)
  have p: "\<exists>t. t \<notin> step_type ` set (steps incomplete_example)"
    by (rule exI [of _ Vfa]) (simp add: incomplete_example_step)
  have t: "step_type (hd (steps incomplete_example)) = Temperature"
    by (simp add: incomplete_example_step)
  note th = C10_done_set_membership [OF m a, of "wizard (open_wizard incomplete_example)"]
  from th have A: "sidebar_isDone (wizard (open_wizard incomplete_example))
      (step_type (hd (steps incomplete_example)))" by blast
  from th p have B: "currentIdx (wizard (open_wizard incomplete_example)) \<noteq> 0
      \<and> sidebar_shows_check (wizard (open_wizard incomplete_example)) 0" by blast
  show ?thesis using i A B t by (simp add: sidebar_isDone_def)
qed

section \<open>Recommended-settings summary\<close>

lemma fold_record_step:
  "fold record_step xs m t =
     (if filter (qualifies t) xs = [] then m t else Some (last (filter (qualifies t) xs)))"
proof (induction xs arbitrary: m)
  case Nil
  then show ?case by simp
next
  case (Cons x xs)
  have "fold record_step (x # xs) m t = fold record_step xs (record_step x m) t"
    by simp
  also have "\<dots> = (if filter (qualifies t) xs = [] then record_step x m t
                     else Some (last (filter (qualifies t) xs)))"
    by (rule Cons.IH)
  also have "\<dots> = (if filter (qualifies t) (x # xs) = [] then m t
                     else Some (last (filter (qualifies t) (x # xs))))"
    by (auto simp: record_step_def qualifies_def)
  finally show ?case .
qed

lemma fold_nested:
  "fold (\<lambda>s. fold f (g s)) xs m = fold f (concat (map g xs)) m"
  by (induction xs arbitrary: m) simp_all

lemma latestByType_flat:
  "latestByType sessions = fold record_step (oldest_first sessions) Map.empty"
  by (simp add: latestByType_def oldest_first_def fold_nested)

lemma latestByType_last:
  "latestByType sessions t =
     (if filter (qualifies t) (oldest_first sessions) = [] then None
      else Some (last (filter (qualifies t) (oldest_first sessions))))"
  by (simp add: latestByType_flat fold_record_step)

lemma oldest_first_Cons:
  "oldest_first (newer # older) = oldest_first older @ steps newer"
  by (simp add: oldest_first_def)

lemma newer_supersedes:
  assumes "filter (qualifies t) (steps newer) \<noteq> []"
  shows "latestByType (newer # older) t = Some (last (filter (qualifies t) (steps newer)))"
  using assms by (simp add: latestByType_last oldest_first_Cons)

lemma older_shows_through:
  assumes "filter (qualifies t) (steps newer) = []"
  shows "latestByType (newer # older) t = latestByType older t"
  using assms by (simp add: latestByType_last oldest_first_Cons)

lemma oldest_first_drop:
  "filter (qualifies t) (oldest_first (map drop_unselected sessions))
     = filter (qualifies t) (oldest_first sessions)"
proof -
  have "filter (qualifies t) (concat (map steps (map drop_unselected xs)))
      = filter (qualifies t) (concat (map steps xs))" for xs
    by (induction xs) (auto simp: drop_unselected_def qualifies_def intro!: filter_cong)
  from this [of "rev sessions"] show ?thesis
    by (simp add: oldest_first_def rev_map)
qed

lemma unselected_ignored:
  "latestByType (map drop_unselected sessions) = latestByType sessions"
  by (rule ext) (simp add: latestByType_last oldest_first_drop)


lemma summary_tile_last:
  "summary_tile sessions t =
     (if filter (qualifies t) (oldest_first sessions) = [] then None
      else let vals = recommended_vals t (last (filter (qualifies t) (oldest_first sessions)))
           in if vals = [] then None else Some vals)"
  by (simp add: summary_tile_def latestByType_last)

text \<open>A step as the skip as not applicable stores it has no selected values and is
  not collected.\<close>

lemma skip_action_not_collected: "\<not> qualifies t (stored_step i sess (skipped_values ty))"
  by (simp add: qualifies_def stored_step_def skipped_values_def nonempty_obj_def)

lemma newer_example_tile:
  "summary_tile [newer_example] Temperature = Some [(''temperature'', JNum 220)]"
  by (simp add: summary_tile_def latestByType_def newer_example_def record_step_def
      stored_step_def save_values_def skipped_values_def Let_def nonempty_obj_def
      recommended_vals_def or_empty_def)

text \<open>
  Claim C4 at inputs that break it.  The aggregator compares no creation time: which
  step it collects depends on the position of the sessions in the list.  The same two
  sessions in the two orders give the temperature tile 220 and the temperature tile
  215, so for one of the orders the tile is not that of the most recently created step.
  And a skipped step can contribute: the input-shaping step that Save and Continue
  stores on a revisited skipped step is tagged Skipped and carries the sentinel as
  selected values; the aggregator collects it, and the input-shaping tile that an older
  session alone would show is gone.
\<close>

theorem C4_recommended_counterexample:
  "summary_tile [newer_example, resume_example] Temperature = Some [(''temperature'', JNum 220)]
   \<and> summary_tile [resume_example, newer_example] Temperature = Some [(''temperature'', JNum 215)]
   \<and> isSkipped (last (steps (session skipped_revisited)))
   \<and> latestByType [session skipped_revisited, shaped_example] Input_shaping
       = Some (last (steps (session skipped_revisited)))
   \<and> summary_tile [shaped_example] Input_shaping
       = Some [(''shaper_type_x'', JStr ''mzv''), (''frequency_x'', JNum 40)]
   \<and> summary_tile [session skipped_revisited, shaped_example] Input_shaping = None"
proof -
  have 1: "summary_tile [newer_example, resume_example] Temperature
             = Some [(''temperature'', JNum 220)]"
    by (simp add: summary_tile_def latestByType_def newer_example_def resume_example_def
        record_step_def stored_step_def save_values_def skipped_values_def Let_def
        nonempty_obj_def recommended_vals_def or_empty_def)
  have 2: "summary_tile [resume_example, newer_example] Temperature
             = Some [(''temperature'', JNum 215)]"
    by (simp add: summary_tile_def latestByType_def newer_example_def resume_example_def
        record_step_def stored_step_def save_values_def skipped_values_def Let_def
        nonempty_obj_def recommended_vals_def or_empty_def)
  have 3: "isSkipped (last (steps (session skipped_revisited)))"
    by (simp add: revisited_steps isSkipped_def skipped_sentinel_def)
  have 4: "latestByType [session skipped_revisited, shaped_example] Input_shaping
       = Some (last (steps (session skipped_revisited)))"
    by (simp add: latestByType_def revisited_steps shaped_example_def record_step_def
        stored_step_def save_values_def skipped_values_def Let_def nonempty_obj_def
        skipped_sentinel_def)
  have 5: "summary_tile [shaped_example] Input_shaping
       = Some [(''shaper_type_x'', JStr ''mzv''), (''frequency_x'', JNum 40)]"
    by (simp add: summary_tile_def latestByType_def shaped_example_def record_step_def
        stored_step_def save_values_def Let_def nonempty_obj_def recommended_vals_def
        or_empty_def)
  have 6: "summary_tile [session skipped_revisited, shaped_example] Input_shaping = None"
    by (simp add: summary_tile_def 4) (simp add: revisited_steps recommended_vals_def
        or_empty_def skipped_sentinel_def)
  show ?thesis using 1 2 3 4 5 6 by blast
qed

text \<open>
  Claim C4, amended.  Read the list of sessions as most recent first and the steps of a
  session as oldest first.  For every list of sessions and every step type \<open>t\<close>, the
  aggregator collects the step of type \<open>t\<close> with non-empty selected values that comes
  latest in that order, none if there is no such step, and the tile of \<open>t\<close> shows the
  recommended-key values of that step (no tile when it has none).  Steps with empty or
  absent selected values never contribute: removing them from every session changes
  nothing.  When the first session of the list has a step that counts for \<open>t\<close>, its last
  such step is the one collected whatever the sessions after it hold; when it has none,
  the sessions after it decide.
\<close>

theorem C4_recommended_latest_in_list:
  "latestByType sessions t =
     (if filter (qualifies t) (oldest_first sessions) = [] then None
      else Some (last (filter (qualifies t) (oldest_first sessions))))
   \<and> summary_tile sessions t =
     (if filter (qualifies t) (oldest_first sessions) = [] then None
      else let vals = recommended_vals t (last (filter (qualifies t) (oldest_first sessions)))
           in if vals = [] then None else Some vals)
   \<and> latestByType (map drop_unselected sessions) = latestByType sessions
   \<and> summary_tile (map drop_unselected sessions) t = summary_tile sessions t
   \<and> (filter (qualifies t) (steps newer) \<noteq> [] \<longrightarrow>
        latestByType (newer # older) t = Some (last (filter (qualifies t) (steps newer)))
        \<and> summary_tile (newer # older) t = summary_tile [newer] t)
   \<and> (filter (qualifies t) (steps newer) = [] \<longrightarrow>
        latestByType (newer # older) t = latestByType older t)"
proof -
  have a: "summary_tile (map drop_unselected sessions) t = summary_tile sessions t"
    by (simp add: summary_tile_def unselected_ignored)
  have b: "summary_tile (newer # older) t = summary_tile [newer] t"
    if "filter (qualifies t) (steps newer) \<noteq> []"
    using that newer_supersedes [of t newer older] newer_supersedes [of t newer "[]"]
    by (simp add: summary_tile_def)
  show ?thesis
    using latestByType_last [of sessions t] summary_tile_last [of sessions t]
      unselected_ignored [of sessions] a
      newer_supersedes [of t newer older] older_shows_through [of t newer older] b
    by blast
qed

theorem C4_recommended_latest_in_list_witness:
  "summary_tile [newer_example, resume_example] Temperature = Some [(''temperature'', JNum 220)]
   \<and> summary_tile [newer_example, resume_example] Flow_rate = Some [(''flow_ratio'', JNum (39 / 40))]
   \<and> summary_tile [newer_example, resume_example] Input_shaping = None
   \<and> filter (qualifies Temperature) (steps newer_example) \<noteq> []"
proof -
  have q: "filter (qualifies Temperature) (steps newer_example) \<noteq> []"
    by (simp add: newer_example_def qualifies_def stored_step_def save_values_def Let_def
        nonempty_obj_def)
  have f: "summary_tile [newer_example, resume_example] Flow_rate
             = Some [(''flow_ratio'', JNum (39 / 40))]"
    by (simp add: summary_tile_def latestByType_def newer_example_def resume_example_def
        record_step_def stored_step_def save_values_def skipped_values_def Let_def
        nonempty_obj_def recommended_vals_def or_empty_def)
  have i: "summary_tile [newer_example, resume_example] Input_shaping = None"
    by (simp add: summary_tile_def latestByType_def newer_example_def resume_example_def
        record_step_def stored_step_def save_values_def skipped_values_def Let_def
        nonempty_obj_def recommended_vals_def or_empty_def)
  from C4_recommended_latest_in_list [of "[newer_example, resume_example]" Temperature
      newer_example "[resume_example]"] q
  have "summary_tile [newer_example, resume_example] Temperature = summary_tile [newer_example] Temperature"
    by blast
  then show ?thesis using newer_example_tile f i q by simp
qed

end
